theory Spec2Isabelle
  imports Main "HOL-Library.Char_ord" "HOL-Library.List_Lexorder" "HOL-Library.Multiset"
begin

section \<open>Python values and exceptions\<close>

text \<open>
  The views of \<^verbatim>\<open>lcc/views/legislation.py\<close> and \<^verbatim>\<open>lcc/views/country.py\<close> are
  embedded as HOL functions.  Every exception the Python code can raise is a value:
  a function that can raise returns \<open>error + 'a\<close>, with \<open>Inl\<close> the exception.
\<close>

datatype error =
    TypeError
  | ValueError
  | IndexError
  | KeyError
  | ZeroDivisionError
  | PageNotAnInteger
  | EmptyPage
  | RequestError

definition bind_err :: "error + 'a \<Rightarrow> ('a \<Rightarrow> error + 'b) \<Rightarrow> error + 'b" where
  "bind_err r f = (case r of Inl e \<Rightarrow> Inl e | Inr v \<Rightarrow> f v)"

subsection \<open>\<^verbatim>\<open>int(s)\<close> on a string\<close>

text \<open>
  Python's \<^verbatim>\<open>int\<close> applied to a \<^verbatim>\<open>str\<close>, in base ten.  On a string of ASCII characters
  the surrounding whitespace (tab, line feed, vertical tab, form feed, carriage return
  and space) is stripped, one sign is allowed, then decimal digits, where single
  underscores may stand between digits.  Anything else raises \<^verbatim>\<open>ValueError\<close> (here
  \<open>None\<close>).
\<close>

definition is_digit :: "char \<Rightarrow> bool" where
  "is_digit c \<longleftrightarrow> 48 \<le> (of_char c :: nat) \<and> (of_char c :: nat) \<le> 57"

definition digit_val :: "char \<Rightarrow> nat" where
  "digit_val c = of_char c - 48"

definition is_space :: "char \<Rightarrow> bool" where
  "is_space c \<longleftrightarrow> (of_char c :: nat) \<in> {9, 10, 11, 12, 13, 32}"

fun digits_from :: "string \<Rightarrow> nat \<Rightarrow> nat option" where
  "digits_from [] acc = Some acc"
| "digits_from (c # cs) acc =
     (if is_digit c then digits_from cs (10 * acc + digit_val c)
      else if c = CHR ''_'' \<and> cs \<noteq> [] \<and> is_digit (hd cs) then digits_from cs acc
      else None)"

definition py_digits :: "string \<Rightarrow> nat option" where
  "py_digits s = (case s of [] \<Rightarrow> None | c # cs \<Rightarrow> if is_digit c then digits_from s 0 else None)"

definition strip :: "string \<Rightarrow> string" where
  "strip s = rev (dropWhile is_space (rev (dropWhile is_space s)))"

definition ascii_int :: "string \<Rightarrow> int option" where
  "ascii_int s =
     (case strip s of
        [] \<Rightarrow> None
      | c # cs \<Rightarrow>
          if c = CHR ''-'' then map_option (\<lambda>n. - int n) (py_digits cs)
          else if c = CHR ''+'' then map_option int (py_digits cs)
          else map_option int (py_digits (c # cs)))"

text \<open>
  This is what \<^verbatim>\<open>int\<close> does on a string of at most 640 ASCII characters.  On every other
  string the result depends on what is not in the program: for a character outside
  ASCII \<^verbatim>\<open>int\<close> consults the Unicode database (it accepts the decimal digits and the
  whitespace of every script), and for a long string the interpreter may refuse the
  conversion (since Python 3.11 a literal of more digits than a configurable limit,
  which is never below 640, raises \<^verbatim>\<open>ValueError\<close>).  That half of \<^verbatim>\<open>int\<close> is a parameter,
  \<open>other_int\<close>, of everything that parses an integer.
\<close>

type_synonym int_parser = "string \<Rightarrow> int option"

definition is_ascii :: "char \<Rightarrow> bool" where
  "is_ascii c \<longleftrightarrow> (of_char c :: nat) < 128"

definition py_int :: "int_parser \<Rightarrow> string \<Rightarrow> int option" where
  "py_int other_int s =
     (if list_all is_ascii s \<and> length s \<le> 640 then ascii_int s else other_int s)"

definition int_of_str :: "int_parser \<Rightarrow> string \<Rightarrow> error + int" where
  "int_of_str other_int s =
     (case py_int other_int s of None \<Rightarrow> Inl ValueError | Some n \<Rightarrow> Inr n)"

text \<open>\<^verbatim>\<open>int(x)\<close> where \<^verbatim>\<open>x\<close> may be \<^verbatim>\<open>None\<close>: \<^verbatim>\<open>int(None)\<close> raises \<^verbatim>\<open>TypeError\<close>.\<close>

definition int_of_opt :: "int_parser \<Rightarrow> string option \<Rightarrow> error + int" where
  "int_of_opt other_int x =
     (case x of None \<Rightarrow> Inl TypeError | Some s \<Rightarrow> int_of_str other_int s)"

subsection \<open>Indexing a list\<close>

text \<open>
  \<^verbatim>\<open>xs[i]\<close>: an index from \<open>-len\<close> up to \<open>-1\<close> counts from the end, any index outside
  \<open>-len \<dots> len - 1\<close> raises \<^verbatim>\<open>IndexError\<close>.
\<close>

definition py_index :: "'a list \<Rightarrow> int \<Rightarrow> error + 'a" where
  "py_index xs i =
     (if 0 \<le> i \<and> i < int (length xs) then Inr (xs ! nat i)
      else if i < 0 \<and> - int (length xs) \<le> i then Inr (xs ! nat (int (length xs) + i))
      else Inl IndexError)"

section \<open>The request\<close>

text \<open>
  \<^verbatim>\<open>request.GET\<close> is a multi-valued dictionary.  \<^verbatim>\<open>getlist(k)\<close> is the list of values
  given for \<open>k\<close> (empty when the parameter is absent); \<^verbatim>\<open>get(k)\<close> is the last of them,
  or \<^verbatim>\<open>None\<close>.  A string is truthy when it is not empty.
\<close>

type_synonym querydict = "string \<Rightarrow> string list"

definition getlist :: "querydict \<Rightarrow> string \<Rightarrow> string list" where
  "getlist G k = G k"

definition get_param :: "querydict \<Rightarrow> string \<Rightarrow> string option" where
  "get_param G k = (if G k = [] then None else Some (last (G k)))"

definition truthy :: "string option \<Rightarrow> bool" where
  "truthy x \<longleftrightarrow> (case x of None \<Rightarrow> False | Some s \<Rightarrow> s \<noteq> [])"

section \<open>Country metadata filtering: range buckets\<close>

text \<open>
  \<^verbatim>\<open>CountryMetadataFiltering.data\<close> is the dictionary of keyword arguments later handed
  to \<^verbatim>\<open>countries.filter(**data)\<close>.  Its values are the literal of a boolean field, the
  name list of a categorical field, or one bound of a range field.  The bucket tables
  (\<^verbatim>\<open>models.POP_RANGES\<close> and the others) are declared outside the files at hand and are
  a parameter: a table is a list of buckets, and \<^verbatim>\<open>filter_range_fields\<close> reads
  component \<open>0\<close> of a bucket as the minimum and component \<open>1\<close> as the maximum.
\<close>

datatype ('l, 'v) lookup_value = Literal 'l | Names "string list" | Bound 'v

type_synonym ('l, 'v) filter_data = "string \<Rightarrow> ('l, 'v) lookup_value option"

type_synonym 'v range_fields = "(string \<times> ('v \<times> 'v) list) list"

definition filter_range_fields ::
  "int_parser \<Rightarrow> 'v range_fields \<Rightarrow> querydict \<Rightarrow> string \<Rightarrow> ('l, 'v) filter_data \<Rightarrow>
   error + ('l, 'v) filter_data" where
  "filter_range_fields other_int RANGE_FIELDS G field data =
     (if getlist G field \<noteq> [] then
        (case map_of RANGE_FIELDS field of
           None \<Rightarrow> Inl KeyError
         | Some table \<Rightarrow>
             bind_err (int_of_opt other_int (get_param G field)) (\<lambda>i.
             bind_err (py_index table i) (\<lambda>lo.
             bind_err (int_of_opt other_int (get_param G field)) (\<lambda>j.
             bind_err (py_index table j) (\<lambda>hi.
               Inr (data(field @ ''__gte'' \<mapsto> Bound (fst lo),
                         field @ ''__lte'' \<mapsto> Bound (snd hi))))))))
      else Inr data)"

section \<open>Pagination\<close>

text \<open>
  Django's \<^verbatim>\<open>Paginator(object_list, per_page)\<close> with its defaults (no orphans, an empty
  first page allowed), as \<^verbatim>\<open>get_queryset\<close> uses it.  \<open>n_results\<close> is what
  \<^verbatim>\<open>object_list.count()\<close> returns and \<open>getitem bottom top\<close> is the slice
  \<^verbatim>\<open>object_list[bottom:top]\<close>.  The page parameter is the string of the query string, or
  the integer default \<open>1\<close> of \<^verbatim>\<open>request.GET.get('page', 1)\<close>.
\<close>

datatype page_arg = PageStr string | PageInt int

definition page_arg_int :: "int_parser \<Rightarrow> page_arg \<Rightarrow> int option" where
  "page_arg_int other_int a =
     (case a of PageInt n \<Rightarrow> Some n | PageStr s \<Rightarrow> py_int other_int s)"

definition allow_empty_first_page :: bool where
  "allow_empty_first_page = True"

definition num_pages :: "nat \<Rightarrow> nat \<Rightarrow> error + nat" where
  "num_pages per_page n_results =
     (if n_results = 0 \<and> \<not> allow_empty_first_page then Inr 0
      else if per_page = 0 then Inl ZeroDivisionError
      else Inr ((max 1 n_results + per_page - 1) div per_page))"

definition validate_number :: "int_parser \<Rightarrow> nat \<Rightarrow> nat \<Rightarrow> page_arg \<Rightarrow> error + int" where
  "validate_number other_int per_page n_results a =
     (case page_arg_int other_int a of
        None \<Rightarrow> Inl PageNotAnInteger
      | Some n \<Rightarrow>
          if n < 1 then Inl EmptyPage
          else bind_err (num_pages per_page n_results) (\<lambda>np.
                 if n > int np then
                   (if n = 1 \<and> allow_empty_first_page then Inr n else Inl EmptyPage)
                 else Inr n))"

definition page ::
  "int_parser \<Rightarrow> nat \<Rightarrow> nat \<Rightarrow> (nat \<Rightarrow> nat \<Rightarrow> error + 'a) \<Rightarrow> page_arg \<Rightarrow>
   error + (int \<times> 'a)" where
  "page other_int per_page n_results getitem a =
     bind_err (validate_number other_int per_page n_results a) (\<lambda>n.
       let bottom = (nat n - 1) * per_page;
           top = (if bottom + per_page \<ge> n_results then n_results else bottom + per_page)
       in bind_err (getitem bottom top) (\<lambda>items. Inr (n, items)))"

text \<open>
  Lines 454 to 466 of \<^verbatim>\<open>get_queryset\<close>: the requested page, the first page when the
  parameter is not an integer, the last page when \<^verbatim>\<open>EmptyPage\<close> is raised.  An exception
  raised inside a handler is not caught by the other handler.
\<close>

definition paginate ::
  "int_parser \<Rightarrow> nat \<Rightarrow> nat \<Rightarrow> (nat \<Rightarrow> nat \<Rightarrow> error + 'a) \<Rightarrow> page_arg \<Rightarrow>
   error + (int \<times> 'a)" where
  "paginate other_int per_page n_results getitem a =
     (case page other_int per_page n_results getitem a of
        Inl PageNotAnInteger \<Rightarrow> page other_int per_page n_results getitem (PageInt 1)
      | Inl EmptyPage \<Rightarrow>
          bind_err (num_pages per_page n_results) (\<lambda>np.
            page other_int per_page n_results getitem (PageInt (int np)))
      | r \<Rightarrow> r)"

section \<open>The search index and its queries\<close>

subsection \<open>Queries\<close>

text \<open>
  The query objects of \<^verbatim>\<open>elasticsearch_dsl\<close> that \<^verbatim>\<open>get_queryset\<close> builds.
  \<open>Or a b\<close> is the value of \<^verbatim>\<open>a | b\<close> and \<open>And a b\<close> the value of \<^verbatim>\<open>a & b\<close>: the library
  builds a boolean query that matches what either (both) of its operands match.
  \<open>Bool must should msm\<close> is \<^verbatim>\<open>Q('bool', must=..., should=..., minimum_should_match=...)\<close>.
  A nested query carries the highlight fields requested for its inner hits; a highlight
  field is a field name with its \<^verbatim>\<open>number_of_fragments\<close> option.
\<close>

type_synonym highlight_field = "string \<times> nat option"

datatype query =
    MatchPhrase string string
  | MultiMatch string "string list"
  | ConstantScore nat query
  | Nested string query "highlight_field list"
  | Terms string "string list"
  | Range string int int
  | Bool "query list" "query list" "nat option"
  | Or query query
  | And query query

text \<open>
  \<^verbatim>\<open>reduce(operator.or_, qs)\<close> and \<^verbatim>\<open>reduce(operator.and_, qs)\<close> fold from the left and
  raise \<^verbatim>\<open>TypeError\<close> on an empty list, since no initial value is given.
\<close>

definition reduce_or :: "query list \<Rightarrow> error + query" where
  "reduce_or qs = (case qs of [] \<Rightarrow> Inl TypeError | q # rest \<Rightarrow> Inr (foldl Or q rest))"

definition reduce_and :: "query list \<Rightarrow> error + query" where
  "reduce_and qs = (case qs of [] \<Rightarrow> Inl TypeError | q # rest \<Rightarrow> Inr (foldl And q rest))"

text \<open>
  A \<^verbatim>\<open>Search\<close> object: its query (none at first), the highlight fields asked for and the
  sort keys.  \<^verbatim>\<open>search.query(q)\<close> sets the query or conjoins \<open>q\<close> to the one present.
\<close>

record search =
  s_query :: "query option"
  s_highlight :: "highlight_field list"
  s_sort :: "string list"

definition new_search :: search where
  "new_search = \<lparr>s_query = None, s_highlight = [], s_sort = []\<rparr>"

definition add_query :: "query \<Rightarrow> search \<Rightarrow> search" where
  "add_query q s = s\<lparr>s_query := Some (case s_query s of None \<Rightarrow> q | Some p \<Rightarrow> And p q)\<rparr>"

definition add_highlight :: "string list \<Rightarrow> nat option \<Rightarrow> search \<Rightarrow> search" where
  "add_highlight fs fragments s =
     s\<lparr>s_highlight := s_highlight s @ map (\<lambda>f. (f, fragments)) fs\<rparr>"

definition add_sort :: "string \<Rightarrow> search \<Rightarrow> search" where
  "add_sort k s = s\<lparr>s_sort := [k]\<rparr>"

subsection \<open>Indexed documents\<close>

text \<open>
  Modelled from the spec: the index projection of a law (\<^verbatim>\<open>lcc/documents.py\<close>, which
  declares \<^verbatim>\<open>LegislationDocument\<close>, is not among the files at hand).  The fields are the
  ones the queries of \<^verbatim>\<open>get_queryset\<close> address.  Classification and tag names are
  flat lists of names, at document level (\<open>classifications\<close>, \<open>tags\<close>), aggregated from
  the articles (\<open>article_classifications\<close>, \<open>article_tags\<close>), per article
  (\<open>classifications_text\<close>, \<open>tags_text\<close>) and copied from the parent into each article
  (\<open>parent_classifications\<close>, \<open>parent_tags\<close>).
\<close>

record article_doc =
  a_text :: string
  classifications_text :: "string list"
  tags_text :: "string list"
  parent_classifications :: "string list"
  parent_tags :: "string list"

record law_doc =
  doc_id :: int
  title :: string
  abstract :: string
  pdf_text :: string
  classifications :: "string list"
  tags :: "string list"
  article_classifications :: "string list"
  article_tags :: "string list"
  country :: string
  country_name :: string
  law_type :: string
  year :: int
  year_amendment :: "int option"
  year_mentions :: "int list"
  articles :: "article_doc list"

definition law_text_values :: "law_doc \<Rightarrow> string \<Rightarrow> string list" where
  "law_text_values d f =
     (if f = ''title'' then [title d]
      else if f = ''abstract'' then [abstract d]
      else if f = ''pdf_text'' then [pdf_text d]
      else if f = ''classifications'' then classifications d
      else if f = ''tags'' then tags d
      else if f = ''article_classifications'' then article_classifications d
      else if f = ''article_tags'' then article_tags d
      else if f = ''country'' then [country d]
      else if f = ''country_name'' then [country_name d]
      else if f = ''law_type'' then [law_type d]
      else [])"

definition law_int_values :: "law_doc \<Rightarrow> string \<Rightarrow> int list" where
  "law_int_values d f =
     (if f = ''year'' then [year d]
      else if f = ''year_amendment'' then (case year_amendment d of None \<Rightarrow> [] | Some y \<Rightarrow> [y])
      else if f = ''year_mentions'' then year_mentions d
      else [])"

definition article_text_values :: "article_doc \<Rightarrow> string \<Rightarrow> string list" where
  "article_text_values a f =
     (if f = ''articles.text'' then [a_text a]
      else if f = ''articles.classifications_text'' then classifications_text a
      else if f = ''articles.tags_text'' then tags_text a
      else if f = ''articles.parent_classifications'' then parent_classifications a
      else if f = ''articles.parent_tags'' then parent_tags a
      else [])"

text \<open>
  Modelled from the spec: the denormalised name lists are consistent.  The aggregated
  lists of a document hold the names of its articles, and every article carries its
  parent's names.
\<close>

definition index_consistent :: "law_doc \<Rightarrow> bool" where
  "index_consistent d \<longleftrightarrow>
     set (article_tags d) = (\<Union>a \<in> set (articles d). set (tags_text a)) \<and>
     set (article_classifications d) = (\<Union>a \<in> set (articles d). set (classifications_text a)) \<and>
     list_all (\<lambda>a. set (parent_tags a) = set (tags d) \<and>
                    set (parent_classifications a) = set (classifications d)) (articles d)"

subsection \<open>Which documents a query matches\<close>

text \<open>
  How the engine decides that a phrase or a free text matches one value of a field is a
  parameter (an analyser is configured outside the files at hand).  A field holds
  several values and matches when one of them does; the fields of a nested query are
  read in one article; a boolean query needs all of \<open>must\<close> and at least
  \<open>minimum_should_match\<close> of \<open>should\<close>, which defaults to one when there is nothing in
  \<open>must\<close>.
\<close>

record analysis =
  phrase_match :: "string \<Rightarrow> string \<Rightarrow> bool"
  text_match :: "string \<Rightarrow> string \<Rightarrow> bool"

fun matches ::
  "analysis \<Rightarrow> (string \<Rightarrow> string list) \<Rightarrow> (string \<Rightarrow> int list) \<Rightarrow>
   (string \<Rightarrow> (string \<Rightarrow> string list) list) \<Rightarrow> query \<Rightarrow> bool" where
  "matches an tv iv ch (MatchPhrase f p) = list_ex (phrase_match an p) (tv f)"
| "matches an tv iv ch (MultiMatch q fs) = list_ex (\<lambda>f. list_ex (text_match an q) (tv f)) fs"
| "matches an tv iv ch (ConstantScore b q) = matches an tv iv ch q"
| "matches an tv iv ch (Nested path q hl) =
     list_ex (\<lambda>c. matches an c (\<lambda>_. []) (\<lambda>_. []) q) (ch path)"
| "matches an tv iv ch (Terms f vs) = list_ex (\<lambda>v. v \<in> set vs) (tv f)"
| "matches an tv iv ch (Range f lo hi) = list_ex (\<lambda>y. lo \<le> y \<and> y \<le> hi) (iv f)"
| "matches an tv iv ch (Bool must should msm) =
     (list_all (matches an tv iv ch) must \<and>
      (case msm of Some k \<Rightarrow> k | None \<Rightarrow> if must = [] \<and> should \<noteq> [] then 1 else 0)
        \<le> length (filter (matches an tv iv ch) should))"
| "matches an tv iv ch (Or a b) = (matches an tv iv ch a \<or> matches an tv iv ch b)"
| "matches an tv iv ch (And a b) = (matches an tv iv ch a \<and> matches an tv iv ch b)"

definition law_children :: "law_doc \<Rightarrow> string \<Rightarrow> (string \<Rightarrow> string list) list" where
  "law_children d path = (if path = ''articles'' then map article_text_values (articles d) else [])"

definition doc_matches :: "analysis \<Rightarrow> law_doc \<Rightarrow> query \<Rightarrow> bool" where
  "doc_matches an d q = matches an (law_text_values d) (law_int_values d) (law_children d) q"

definition article_matches :: "analysis \<Rightarrow> article_doc \<Rightarrow> query \<Rightarrow> bool" where
  "article_matches an a q = matches an (article_text_values a) (\<lambda>_. []) (\<lambda>_. []) q"

definition search_matches :: "analysis \<Rightarrow> law_doc \<Rightarrow> search \<Rightarrow> bool" where
  "search_matches an d s = (case s_query s of None \<Rightarrow> True | Some q \<Rightarrow> doc_matches an d q)"

section \<open>Composing the query\<close>

subsection \<open>Facets: classifications and tags\<close>

text \<open>
  A taxonomy table holds the primary key and the name of each classification (or tag).
  \<^verbatim>\<open>objects.filter(pk__in=ids).values_list('name', flat=True)\<close> gives the names of the
  rows whose key is requested.
\<close>

type_synonym taxonomy = "(int \<times> string) list"

definition names_of :: "taxonomy \<Rightarrow> int list \<Rightarrow> string list" where
  "names_of table ids = map snd (filter (\<lambda>(k, n). k \<in> set ids) table)"

fun ints_of :: "int_parser \<Rightarrow> string list \<Rightarrow> error + int list" where
  "ints_of other_int [] = Inr []"
| "ints_of other_int (s # ss) =
     bind_err (int_of_str other_int s) (\<lambda>n.
     bind_err (ints_of other_int ss) (\<lambda>ns. Inr (n # ns)))"

record facets =
  classification_ids :: "int list"
  tag_ids :: "int list"
  law_queries :: "query list"
  article_queries :: "query list"
  article_highlights :: "highlight_field list"

definition no_facets :: facets where
  "no_facets = \<lparr>classification_ids = [], tag_ids = [], law_queries = [],
                 article_queries = [], article_highlights = []\<rparr>"

text \<open>Lines 207 to 254: the classifications requested.\<close>

definition classification_stage ::
  "int_parser \<Rightarrow> taxonomy \<Rightarrow> querydict \<Rightarrow> facets \<Rightarrow> error + facets" where
  "classification_stage other_int table G fa =
     bind_err (ints_of other_int (getlist G ''classifications[]'')) (\<lambda>ids.
       if ids \<noteq> [] then
         (let names = names_of table ids in
          bind_err (reduce_or (map (MatchPhrase ''classifications'') names)) (\<lambda>a.
          bind_err (reduce_or (map (MatchPhrase ''article_classifications'') names)) (\<lambda>b.
          bind_err (reduce_or (map (MatchPhrase ''articles.classifications_text'') names)) (\<lambda>c.
          bind_err (reduce_or (map (MatchPhrase ''articles.parent_classifications'') names)) (\<lambda>d.
            Inr (fa\<lparr>classification_ids := ids,
                     law_queries := law_queries fa @ [Or a b],
                     article_queries := article_queries fa @ [Or c d],
                     article_highlights :=
                       article_highlights fa @ [(''articles.classifications_text'', Some 0)]\<rparr>))))))
       else Inr (fa\<lparr>classification_ids := ids\<rparr>))"

text \<open>Lines 257 to 297: the tags requested.\<close>

definition tag_stage :: "int_parser \<Rightarrow> taxonomy \<Rightarrow> querydict \<Rightarrow> facets \<Rightarrow> error + facets" where
  "tag_stage other_int table G fa =
     bind_err (ints_of other_int (getlist G ''tags[]'')) (\<lambda>ids.
       if ids \<noteq> [] then
         (let names = names_of table ids in
          bind_err (reduce_or (map (MatchPhrase ''tags'') names)) (\<lambda>a.
          bind_err (reduce_or (map (MatchPhrase ''article_tags'') names)) (\<lambda>b.
          bind_err (reduce_or (map (MatchPhrase ''articles.tags_text'') names)) (\<lambda>c.
          bind_err (reduce_or (map (MatchPhrase ''articles.parent_tags'') names)) (\<lambda>d.
            Inr (fa\<lparr>tag_ids := ids,
                     law_queries := law_queries fa @ [Or a b],
                     article_queries := article_queries fa @ [Or c d],
                     article_highlights :=
                       article_highlights fa @ [(''articles.tags_text'', Some 0)]\<rparr>))))))
       else Inr (fa\<lparr>tag_ids := ids\<rparr>))"

definition facet_stage ::
  "int_parser \<Rightarrow> taxonomy \<Rightarrow> taxonomy \<Rightarrow> querydict \<Rightarrow> error + facets" where
  "facet_stage other_int classification_table tag_table G =
     bind_err (classification_stage other_int classification_table G no_facets)
       (tag_stage other_int tag_table G)"

subsection \<open>Free text\<close>

text \<open>Lines 301 to 325: the queries for the free text \<open>q\<close>, empty when \<open>q\<close> is falsy.\<close>

definition law_q_query :: "string option \<Rightarrow> query list" where
  "law_q_query q =
     (case q of
        None \<Rightarrow> []
      | Some t \<Rightarrow>
          if t = [] then []
          else [MultiMatch t [''title'', ''abstract'', ''pdf_text'', ''classifications'', ''tags'']])"

definition article_q_query :: "string option \<Rightarrow> query list" where
  "article_q_query q =
     (case q of
        None \<Rightarrow> []
      | Some t \<Rightarrow>
          if t = [] then []
          else [Or (MultiMatch t [''articles.text''])
                   (ConstantScore 50 (MatchPhrase ''articles.text'' t))])"

definition article_q_highlights :: "highlight_field list" where
  "article_q_highlights = [(''articles.text'', None)]"

subsection \<open>The top-level query\<close>

definition nested_articles :: "query list \<Rightarrow> highlight_field list \<Rightarrow> error + query list" where
  "nested_articles qs hl = bind_err (reduce_and qs) (\<lambda>q. Inr [Nested ''articles'' q hl])"

text \<open>Lines 332 to 377: a free text is given.\<close>

definition text_query :: "facets \<Rightarrow> string option \<Rightarrow> search \<Rightarrow> error + search" where
  "text_query fa q s =
     bind_err (if article_queries fa \<noteq> []
               then nested_articles (article_queries fa) (article_highlights fa)
               else Inr []) (\<lambda>n1.
     bind_err (if article_queries fa \<noteq> [] \<or> article_q_query q \<noteq> []
               then nested_articles (article_queries fa @ article_q_query q)
                      (article_highlights fa @ article_q_highlights)
               else Inr []) (\<lambda>n2.
       let q_in_law = Bool (law_queries fa @ law_q_query q @ n1) [] None;
           q_in_article = Bool (law_queries fa @ n2) [] None
       in Inr (add_highlight [''abstract'', ''pdf_text''] None
                 (add_query (Or q_in_law q_in_article) s))))"

text \<open>
  Lines 379 to 410: no free text.  \<^verbatim>\<open>root_query and nested_query\<close> is \<^verbatim>\<open>nested_query\<close>
  when \<^verbatim>\<open>root_query\<close> is not empty.
\<close>

definition py_and :: "'a list \<Rightarrow> 'a list \<Rightarrow> 'a list" where
  "py_and xs ys = (if xs = [] then xs else ys)"

definition facet_query :: "facets \<Rightarrow> search \<Rightarrow> error + search" where
  "facet_query fa s =
     bind_err (if law_queries fa \<noteq> []
               then bind_err (reduce_and (law_queries fa)) (\<lambda>r. Inr [r])
               else Inr []) (\<lambda>root_query.
     bind_err (if article_queries fa \<noteq> []
               then nested_articles (article_queries fa) (article_highlights fa)
               else Inr []) (\<lambda>nested_query.
       let final_query =
             (if root_query \<noteq> [] then
                root_query @ (if nested_query \<noteq> [] then py_and root_query nested_query else [])
              else [])
       in Inr (if final_query \<noteq> [] then add_query (Bool [] final_query (Some 1)) s else s)))"

definition compose_query :: "facets \<Rightarrow> string option \<Rightarrow> search \<Rightarrow> error + search" where
  "compose_query fa q s = (if truthy q then text_query fa q s else facet_query fa s)"

subsection \<open>Countries\<close>

text \<open>
  Binding the arguments of a call to the parameters of a \<^verbatim>\<open>def\<close>: a parameter is a
  name and whether it has a default.  Too many positional arguments, a keyword that
  names no parameter, a keyword for a parameter already given by position and a
  parameter left without a value each raise \<^verbatim>\<open>TypeError\<close>, before the body runs.
\<close>

definition bind_arguments :: "(string \<times> bool) list \<Rightarrow> nat \<Rightarrow> string list \<Rightarrow> error + unit" where
  "bind_arguments params n_positional keywords =
     (if length params < n_positional then Inl TypeError
      else if list_ex (\<lambda>k. k \<notin> set (map fst params)) keywords then Inl TypeError
      else if list_ex (\<lambda>k. k \<in> set (map fst (take n_positional params))) keywords
           then Inl TypeError
      else if list_ex (\<lambda>p. \<not> snd p \<and> fst p \<notin> set keywords) (drop n_positional params)
           then Inl TypeError
      else Inr ())"

text \<open>
  \<^verbatim>\<open>def filter_countries(self, request, filteres=None)\<close>, with \<^verbatim>\<open>self\<close> bound by the
  method call.
\<close>

definition filter_countries_params :: "(string \<times> bool) list" where
  "filter_countries_params = [(''request'', False), (''filteres'', True)]"

text \<open>
  Modelled from the spec: a country row (\<^verbatim>\<open>lcc/models.py\<close> is not among the files at
  hand).  It has its ISO code, the value of each boolean field, the names related to it
  through each categorical field and the value of each numeric field.
\<close>

record ('l, 'v) country_row =
  iso :: string
  flag :: "string \<Rightarrow> 'l"
  related_names :: "string \<Rightarrow> string list"
  metric :: "string \<Rightarrow> 'v"

definition BOOLEAN_FIELDS :: "string list" where
  "BOOLEAN_FIELDS = [''cw'', ''small_cw'', ''un'', ''ldc'', ''lldc'', ''sid'']"

definition LIST_FIELDS :: "string list" where
  "LIST_FIELDS = [''region'', ''sub_region'', ''legal_system'']"

text \<open>
  \<^verbatim>\<open>countries.filter(**data)\<close> for the keys this class writes: the field itself for a
  boolean field, \<^verbatim>\<open>field__name__in\<close> for a categorical field, \<^verbatim>\<open>field__gte\<close> and
  \<^verbatim>\<open>field__lte\<close> for a range field.  All conditions must hold.
\<close>

definition country_matches ::
  "string list \<Rightarrow> ('l, 'v::linorder) filter_data \<Rightarrow> ('l, 'v) country_row \<Rightarrow> bool" where
  "country_matches range_names data c \<longleftrightarrow>
     list_all (\<lambda>f. case data f of Some (Literal l) \<Rightarrow> flag c f = l | _ \<Rightarrow> True) BOOLEAN_FIELDS \<and>
     list_all (\<lambda>f. case data (f @ ''__name__in'') of
                      Some (Names ns) \<Rightarrow> list_ex (\<lambda>n. n \<in> set ns) (related_names c f)
                    | _ \<Rightarrow> True) LIST_FIELDS \<and>
     list_all (\<lambda>f. (case data (f @ ''__gte'') of Some (Bound v) \<Rightarrow> v \<le> metric c f | _ \<Rightarrow> True) \<and>
                    (case data (f @ ''__lte'') of Some (Bound v) \<Rightarrow> metric c f \<le> v | _ \<Rightarrow> True))
              range_names"

text \<open>
  \<^verbatim>\<open>ast.literal_eval\<close> is a parameter: it gives the Python literal a string denotes, or
  raises.
\<close>

definition filter_boolean_fields ::
  "(string \<Rightarrow> error + 'l) \<Rightarrow> querydict \<Rightarrow> string \<Rightarrow> ('l, 'v) filter_data \<Rightarrow> error + ('l, 'v) filter_data" where
  "filter_boolean_fields literal_eval G field data =
     (case get_param G field of
        None \<Rightarrow> Inr data
      | Some t \<Rightarrow>
          if t = [] then Inr data
          else bind_err (literal_eval t) (\<lambda>l. Inr (data(field \<mapsto> Literal l))))"

definition filter_list_fields ::
  "querydict \<Rightarrow> string \<Rightarrow> ('l, 'v) filter_data \<Rightarrow> error + ('l, 'v) filter_data" where
  "filter_list_fields G field data =
     (if getlist G field \<noteq> [] then Inr (data(field @ ''__name__in'' \<mapsto> Names (getlist G field)))
      else Inr data)"

fun for_each :: "('a \<Rightarrow> 's \<Rightarrow> error + 's) \<Rightarrow> 'a list \<Rightarrow> 's \<Rightarrow> error + 's" where
  "for_each body [] st = Inr st"
| "for_each body (x # xs) st = bind_err (body x st) (for_each body xs)"

definition filter_countries ::
  "int_parser \<Rightarrow> (string \<Rightarrow> error + 'l) \<Rightarrow> ('v::linorder) range_fields \<Rightarrow>
   ('l, 'v) country_row list \<Rightarrow> querydict \<Rightarrow> error + ('l, 'v) country_row list" where
  "filter_countries other_int literal_eval RANGE_FIELDS countries G =
     bind_err (for_each (filter_boolean_fields literal_eval G) BOOLEAN_FIELDS Map.empty) (\<lambda>d1.
     bind_err (for_each (filter_list_fields G) LIST_FIELDS d1) (\<lambda>d2.
     bind_err (for_each (filter_range_fields other_int RANGE_FIELDS G) (map fst RANGE_FIELDS) d2) (\<lambda>d3.
       Inr (filter (country_matches (map fst RANGE_FIELDS) d3) countries))))"

text \<open>
  Lines 413 to 420.  The call passes \<^verbatim>\<open>self.request\<close> by position and the keyword
  \<^verbatim>\<open>selected_countries\<close>.
\<close>

definition country_stage ::
  "int_parser \<Rightarrow> (string \<Rightarrow> error + 'l) \<Rightarrow> ('v::linorder) range_fields \<Rightarrow>
   ('l, 'v) country_row list \<Rightarrow> querydict \<Rightarrow> search \<Rightarrow> error + search" where
  "country_stage other_int literal_eval RANGE_FIELDS all_countries G s =
     (let countries = getlist G ''countries[]'' in
      bind_err (bind_arguments filter_countries_params 1 [''selected_countries'']) (\<lambda>_.
      bind_err (filter_countries other_int literal_eval RANGE_FIELDS all_countries G)
        (\<lambda>filtering_countries.
        Inr (if countries \<noteq> [] \<or> length filtering_countries \<noteq> length all_countries
             then add_query (Terms ''country'' (countries @ map iso filtering_countries)) s
             else s))))"

subsection \<open>Law types and years\<close>

text \<open>Lines 423 to 425.\<close>

definition law_type_stage :: "querydict \<Rightarrow> search \<Rightarrow> search" where
  "law_type_stage G s =
     (let law_types = getlist G ''law_types[]'' in
      if law_types \<noteq> [] then add_query (Terms ''law_type'' law_types) s else s)"

text \<open>
  Lines 428 to 439.  \<^verbatim>\<open>all([from_year, to_year])\<close> holds when both are given and not
  empty; \<^verbatim>\<open>int\<close> is then applied to each.
\<close>

definition year_stage :: "int_parser \<Rightarrow> querydict \<Rightarrow> search \<Rightarrow> error + search" where
  "year_stage other_int G s =
     (let from_year = get_param G ''from_year''; to_year = get_param G ''to_year'' in
      if truthy from_year \<and> truthy to_year then
        bind_err (int_of_opt other_int from_year) (\<lambda>a.
        bind_err (int_of_opt other_int to_year) (\<lambda>b.
          Inr (add_query (Or (Or (Range ''year'' a b) (Range ''year_amendment'' a b))
                             (Range ''year_mentions'' a b)) s)))
      else Inr s)"

text \<open>Lines 441 to 448.\<close>

definition finish_search :: "facets \<Rightarrow> string option \<Rightarrow> search \<Rightarrow> search" where
  "finish_search fa q s =
     (let s1 = add_highlight [''title'', ''classifications'', ''article_classifications'',
                              ''tags'', ''article_tags''] (Some 0) s
      in if \<not> (classification_ids fa \<noteq> [] \<or> tag_ids fa \<noteq> [] \<or> truthy q)
         then add_sort ''id'' s1 else s1)"

text \<open>Lines 330 to 448: everything done when no sort is requested.\<close>

definition unsorted_search ::
  "int_parser \<Rightarrow> (string \<Rightarrow> error + 'l) \<Rightarrow> ('v::linorder) range_fields \<Rightarrow>
   ('l, 'v) country_row list \<Rightarrow> querydict \<Rightarrow> facets \<Rightarrow> search \<Rightarrow> error + search" where
  "unsorted_search other_int literal_eval RANGE_FIELDS all_countries G fa s =
     (let q = get_param G ''q'' in
      bind_err (compose_query fa q s) (\<lambda>s1.
      bind_err (country_stage other_int literal_eval RANGE_FIELDS all_countries G s1) (\<lambda>s2.
      bind_err (year_stage other_int G (law_type_stage G s2)) (\<lambda>s3.
        Inr (finish_search fa q s3)))))"

subsection \<open>The sort requested\<close>

definition get_sort :: "querydict \<Rightarrow> string option" where
  "get_sort G =
     (let promulgation_sort = get_param G ''promulgation_sort'';
          country_sort = get_param G ''country_sort''
      in if truthy promulgation_sort then
           (if promulgation_sort = Some ''1'' then Some ''year'' else Some ''-year'')
         else if truthy country_sort then
           (if country_sort = Some ''1'' then Some ''country_name'' else Some ''-country_name'')
         else None)"

section \<open>Hydrating a page of hits\<close>

subsection \<open>String operations\<close>

text \<open>
  \<^verbatim>\<open>s.split(sep)\<close> cuts at each occurrence of \<open>sep\<close> from the left and raises
  \<^verbatim>\<open>ValueError\<close> for an empty separator; \<^verbatim>\<open>sep.join(xs)\<close>; \<^verbatim>\<open>s.replace(old, new)\<close>
  for a non-empty \<open>old\<close>; \<^verbatim>\<open>p in s\<close>; the slice \<^verbatim>\<open>s[4:-5]\<close>.  \<^verbatim>\<open>mark_safe\<close> only marks
  a string as safe to render and leaves its characters as they are, so it is left out.
\<close>

function split_on :: "string \<Rightarrow> string \<Rightarrow> string \<Rightarrow> string list" where
  "split_on sep cur [] = [cur]"
| "split_on sep cur (c # cs) =
     (if sep \<noteq> [] \<and> take (length sep) (c # cs) = sep
      then cur # split_on sep [] (drop (length sep) (c # cs))
      else split_on sep (cur @ [c]) cs)"
  by pat_completeness auto
termination
  by (relation "measure (\<lambda>(sep, cur, s). length s)") auto

definition py_split :: "string \<Rightarrow> string \<Rightarrow> error + string list" where
  "py_split sep s = (if sep = [] then Inl ValueError else Inr (split_on sep [] s))"

fun join :: "string \<Rightarrow> string list \<Rightarrow> string" where
  "join sep [] = []"
| "join sep [x] = x"
| "join sep (x # y # ys) = x @ sep @ join sep (y # ys)"

definition py_replace :: "string \<Rightarrow> string \<Rightarrow> string \<Rightarrow> string" where
  "py_replace old new s = join new (split_on old [] s)"

fun contains :: "string \<Rightarrow> string \<Rightarrow> bool" where
  "contains p [] = (p = [])"
| "contains p (c # cs) = (take (length p) (c # cs) = p \<or> contains p cs)"

definition slice_4_5 :: "string \<Rightarrow> string" where
  "slice_4_5 s = drop 4 (take (length s - 5) s)"

definition first_of :: "'a list \<Rightarrow> error + 'a" where
  "first_of xs = (case xs of [] \<Rightarrow> Inl IndexError | x # _ \<Rightarrow> Inr x)"

text \<open>The separator \<^verbatim>\<open>' [...] '\<close> between fragments, whose middle is the ellipsis character.\<close>

definition ellipsis :: string where
  "ellipsis = [CHR '' '', CHR ''['', CHR 0xE2, CHR 0x80, CHR 0xA6, CHR '']'', CHR '' '']"

definition emphasise :: "string \<Rightarrow> string" where
  "emphasise n = ''<em>'' @ n @ ''</em>''"

subsection \<open>Hits and relational records\<close>

text \<open>
  A hit of the index: the identifier of the law, the highlight dictionary when
  \<^verbatim>\<open>hit.meta\<close> has one, and the inner hits of the nested articles when \<^verbatim>\<open>hit.meta\<close> has
  \<^verbatim>\<open>inner_hits\<close>.  An inner hit has the article's key and code and may have highlights.
\<close>

type_synonym highlights = "string \<Rightarrow> string list option"

record article_hit =
  ah_pk :: int
  ah_code :: string
  ah_highlight :: "highlights option"

record hit =
  hit_id :: int
  hit_highlight :: "highlights option"
  inner_hits :: "article_hit list option"

text \<open>
  Modelled from the spec: the relational record of a law with its articles, each with the
  names of its tags and classifications (\<^verbatim>\<open>lcc/models.py\<close> is not among the files at
  hand).  The \<open>highlighted\<close> attributes are the ones \<^verbatim>\<open>__getitem__\<close> sets; a record
  read from the store has none of them.
\<close>

record article =
  article_pk :: int
  article_code :: string
  article_tag_names :: "string list"
  article_classification_names :: "string list"

record article_dict =
  d_pk :: int
  d_code :: string
  d_text :: "string option"
  d_classifications :: "string list option"
  d_tags :: "string list option"

record law =
  pk :: int
  law_articles :: "article list"
  highlighted_abstract :: "string option"
  highlighted_pdf_text :: "string option"
  highlighted_title :: "string option"
  highlighted_classifications :: "string list option"
  highlighted_tags :: "string list option"
  highlighted_articles :: "article_dict list option"


text \<open>
  \<^verbatim>\<open>hits.to_queryset()\<close>: the records of the store whose key is the identifier of a hit,
  in the order of the hits.  A hit whose record is gone contributes nothing.
\<close>

definition to_queryset :: "law list \<Rightarrow> int list \<Rightarrow> law list" where
  "to_queryset store ids = List.map_filter (\<lambda>i. find (\<lambda>l. pk l = i) store) ids"

subsection \<open>Document-level highlights (lines 55 to 91)\<close>

definition matched_names :: "string \<Rightarrow> highlights \<Rightarrow> string \<Rightarrow> error + string list" where
  "matched_names conn h key =
     (case h key of
        None \<Rightarrow> Inr []
      | Some fragments \<Rightarrow>
          bind_err (first_of fragments) (\<lambda>f.
          bind_err (py_split conn f) (\<lambda>parts.
            Inr (map slice_4_5 (filter (contains ''<em>'') parts)))))"

definition split_first :: "string \<Rightarrow> highlights \<Rightarrow> string \<Rightarrow> error + string list option" where
  "split_first conn h key =
     (case h key of
        None \<Rightarrow> Inr None
      | Some fragments \<Rightarrow>
          bind_err (first_of fragments) (\<lambda>f.
          bind_err (py_split conn f) (\<lambda>parts. Inr (Some parts))))"

definition keep :: "'a option \<Rightarrow> 'a option \<Rightarrow> 'a option" where
  "keep new old = (case new of None \<Rightarrow> old | Some v \<Rightarrow> Some v)"

definition document_highlights ::
  "string \<Rightarrow> highlights \<Rightarrow> string list \<times> string list \<Rightarrow> law \<Rightarrow>
   error + ((string list \<times> string list) \<times> law)" where
  "document_highlights conn h acc l =
     (let l1 = l\<lparr>highlighted_abstract :=
                   keep (map_option (join ellipsis) (h ''abstract'')) (highlighted_abstract l)\<rparr>;
          l2 = l1\<lparr>highlighted_pdf_text :=
                   keep (map_option (\<lambda>fr. py_replace ''</pre>'' [] (py_replace ''<pre>'' [] (join ellipsis fr)))
                           (h ''pdf_text'')) (highlighted_pdf_text l1)\<rparr>
      in
      bind_err (case h ''title'' of None \<Rightarrow> Inr None
                | Some fr \<Rightarrow> bind_err (first_of fr) (\<lambda>t. Inr (Some t))) (\<lambda>ti.
      bind_err (split_first conn h ''classifications'') (\<lambda>cl.
      bind_err (matched_names conn h ''article_classifications'') (\<lambda>mc.
      bind_err (split_first conn h ''tags'') (\<lambda>tg.
      bind_err (matched_names conn h ''article_tags'') (\<lambda>mt.
        Inr ((fst acc @ mt, snd acc @ mc),
             l2\<lparr>highlighted_title := keep ti (highlighted_title l2),
                highlighted_classifications := keep cl (highlighted_classifications l2),
                highlighted_tags := keep tg (highlighted_tags l2)\<rparr>)))))))"

subsection \<open>Article-level highlights (lines 93 to 162)\<close>

definition split_truthy :: "string \<Rightarrow> highlights \<Rightarrow> string \<Rightarrow> error + string list option" where
  "split_truthy conn h key =
     (case h key of
        None \<Rightarrow> Inr None
      | Some fragments \<Rightarrow>
          if fragments = [] then Inr None
          else bind_err (first_of fragments) (\<lambda>f.
               bind_err (py_split conn f) (\<lambda>parts. Inr (Some parts))))"

text \<open>One inner hit: no entry when it has no highlight (\<^verbatim>\<open>continue\<close>), else one entry.\<close>

definition inner_article :: "string \<Rightarrow> article_hit \<Rightarrow> error + article_dict list" where
  "inner_article conn a =
     (case ah_highlight a of
        None \<Rightarrow> Inr []
      | Some h \<Rightarrow>
          bind_err (split_truthy conn h ''articles.classifications_text'') (\<lambda>cl.
          bind_err (split_truthy conn h ''articles.tags_text'') (\<lambda>tg.
            Inr [\<lparr>d_pk = ah_pk a, d_code = ah_code a,
                  d_text = (case h ''articles.text'' of
                              None \<Rightarrow> None
                            | Some fr \<Rightarrow> if fr = [] then None else Some (join ellipsis fr)),
                  d_classifications = cl, d_tags = tg\<rparr>])))"

fun inner_articles :: "string \<Rightarrow> article_hit list \<Rightarrow> error + article_dict list" where
  "inner_articles conn [] = Inr []"
| "inner_articles conn (a # rest) =
     bind_err (inner_article conn a) (\<lambda>d.
     bind_err (inner_articles conn rest) (\<lambda>ds. Inr (d @ ds)))"

text \<open>
  \<^verbatim>\<open>law.articles.filter(DjQ(tags__name__in=mt) | DjQ(classifications__name__in=mc))\<close>.
  Both relations are many-to-many, so the query joins each article with its tags and
  with its classifications (an article without any is joined with a null row) and
  returns the article once for every joined row that satisfies the condition: an
  article is in the result when one of its names is requested, possibly more than once.
\<close>

definition nullable :: "'a list \<Rightarrow> 'a option list" where
  "nullable xs = (if xs = [] then [None] else map Some xs)"

definition name_in :: "string option \<Rightarrow> string list \<Rightarrow> bool" where
  "name_in n ns = (case n of None \<Rightarrow> False | Some x \<Rightarrow> x \<in> set ns)"

definition articles_filter :: "string list \<Rightarrow> string list \<Rightarrow> article list \<Rightarrow> article list" where
  "articles_filter mt mc arts =
     concat (map (\<lambda>a. [a. t \<leftarrow> nullable (article_tag_names a),
                          c \<leftarrow> nullable (article_classification_names a),
                          name_in t mt \<or> name_in c mc]) arts)"

definition fallback_dict :: "string list \<Rightarrow> string list \<Rightarrow> article \<Rightarrow> article_dict" where
  "fallback_dict mt mc a =
     \<lparr>d_pk = article_pk a, d_code = article_code a, d_text = None,
      d_classifications =
        Some (map (\<lambda>n. if n \<in> set mc then emphasise n else n) (article_classification_names a)),
      d_tags = Some (map (\<lambda>n. if n \<in> set mt then emphasise n else n) (article_tag_names a))\<rparr>"

definition fallback_articles :: "string list \<Rightarrow> string list \<Rightarrow> law \<Rightarrow> article_dict list" where
  "fallback_articles mt mc l = map (fallback_dict mt mc) (articles_filter mt mc (law_articles l))"

definition nested_highlights ::
  "string \<Rightarrow> string list \<times> string list \<Rightarrow> hit \<Rightarrow> law \<Rightarrow> error + law" where
  "nested_highlights conn acc h l =
     (case inner_hits h of
        None \<Rightarrow> Inr l
      | Some arts \<Rightarrow>
          if arts \<noteq> [] then
            bind_err (inner_articles conn arts) (\<lambda>ds. Inr (l\<lparr>highlighted_articles := Some ds\<rparr>))
          else if snd acc \<noteq> [] \<or> fst acc \<noteq> [] then
            Inr (l\<lparr>highlighted_articles := Some (fallback_articles (fst acc) (snd acc) l)\<rparr>)
          else Inr (l\<lparr>highlighted_articles := Some []\<rparr>))"

subsection \<open>The loop over the page (lines 51 to 164)\<close>

text \<open>
  The state of the loop is the pair of accumulators \<^verbatim>\<open>matched_article_tags\<close> and
  \<^verbatim>\<open>matched_article_classifications\<close>, both empty before the loop, and the list
  \<^verbatim>\<open>laws\<close>.  The loop runs over \<^verbatim>\<open>zip(hits, hits.to_queryset())\<close>.
\<close>

definition hydrate_hit ::
  "string \<Rightarrow> string list \<times> string list \<Rightarrow> hit \<Rightarrow> law \<Rightarrow>
   error + ((string list \<times> string list) \<times> law)" where
  "hydrate_hit conn acc h l =
     bind_err (case hit_highlight h of
                 None \<Rightarrow> Inr (acc, l)
               | Some hl \<Rightarrow> document_highlights conn hl acc l) (\<lambda>r.
     bind_err (nested_highlights conn (fst r) h (snd r)) (\<lambda>l'. Inr (fst r, l')))"

fun hydrate_loop ::
  "string \<Rightarrow> string list \<times> string list \<Rightarrow> (hit \<times> law) list \<Rightarrow>
   error + ((string list \<times> string list) \<times> law list)" where
  "hydrate_loop conn acc [] = Inr (acc, [])"
| "hydrate_loop conn acc (p # rest) =
     bind_err (hydrate_hit conn acc (fst p) (snd p)) (\<lambda>r.
     bind_err (hydrate_loop conn (fst r) rest) (\<lambda>r'. Inr (fst r', snd r # snd r')))"

definition hydrate :: "string \<Rightarrow> law list \<Rightarrow> hit list \<Rightarrow> error + law list" where
  "hydrate conn store hits =
     bind_err (hydrate_loop conn ([], []) (zip hits (to_queryset store (map hit_id hits))))
       (\<lambda>r. Inr (snd r))"

section \<open>Running a search\<close>

text \<open>
  A sort key is a field name, with a leading \<open>-\<close> for descending order.  The index
  orders the matching documents by that field; how it orders documents with equal keys
  is not specified, and here they keep a fixed order.
\<close>

definition order_docs :: "string \<Rightarrow> law_doc list \<Rightarrow> error + law_doc list" where
  "order_docs field docs =
     (if field = ''year'' then Inr (sort_key year docs)
      else if field = ''country_name'' then Inr (sort_key country_name docs)
      else if field = ''id'' then Inr (sort_key doc_id docs)
      else Inl RequestError)"

definition es_sorted :: "string \<Rightarrow> law_doc list \<Rightarrow> error + law_doc list" where
  "es_sorted k docs =
     (if k \<noteq> [] \<and> hd k = CHR ''-''
      then bind_err (order_docs (tl k) docs) (\<lambda>ds. Inr (rev ds))
      else order_docs k docs)"

definition es_count :: "analysis \<Rightarrow> law_doc list \<Rightarrow> search \<Rightarrow> nat" where
  "es_count an index s = length (filter (\<lambda>d. search_matches an d s) index)"

text \<open>
  \<^verbatim>\<open>HighlightedLaws.__getitem__\<close> for the slice from \<open>bottom\<close> to \<open>upper\<close>.  With a sort it returns
  \<^verbatim>\<open>hits.sort(self.sort).to_queryset()\<close>.  Without one it hydrates the hits the engine
  returns for the slice; their ranking and their highlights are the engine's, a
  parameter \<open>respond\<close>.
\<close>

definition getitem_sorted ::
  "analysis \<Rightarrow> law_doc list \<Rightarrow> law list \<Rightarrow> search \<Rightarrow> string \<Rightarrow> nat \<Rightarrow> nat \<Rightarrow> error + law list" where
  "getitem_sorted an index store s k bottom upper =
     bind_err (es_sorted k (filter (\<lambda>d. search_matches an d s) index)) (\<lambda>ds.
       Inr (to_queryset store (map doc_id (take (upper - bottom) (drop bottom ds)))))"

definition getitem ::
  "analysis \<Rightarrow> law_doc list \<Rightarrow> law list \<Rightarrow> string \<Rightarrow> (search \<Rightarrow> nat \<Rightarrow> nat \<Rightarrow> hit list) \<Rightarrow>
   search \<Rightarrow> string option \<Rightarrow> nat \<Rightarrow> nat \<Rightarrow> error + law list" where
  "getitem an index store conn respond s sort_by bottom upper =
     (case sort_by of
        Some k \<Rightarrow>
          if k \<noteq> [] then getitem_sorted an index store s k bottom upper
          else hydrate conn store (respond s bottom upper)
      | None \<Rightarrow> hydrate conn store (respond s bottom upper))"

section \<open>\<^verbatim>\<open>LegislationExplorer.get_queryset\<close>\<close>

text \<open>
  Everything the view reads from outside: the taxonomy tables, the countries and the
  bucket tables, the index and the store, the settings \<^verbatim>\<open>LAWS_PER_PAGE\<close> and
  \<^verbatim>\<open>TAXONOMY_CONNECTOR\<close>, and the parameters named above (among them what \<^verbatim>\<open>int\<close>
  makes of a string that is not a short ASCII string).
\<close>

record ('l, 'v) env =
  e_classifications :: taxonomy
  e_tags :: taxonomy
  e_countries :: "('l, 'v) country_row list"
  POP_RANGES :: "('v \<times> 'v) list"
  HDI_RANGES :: "('v \<times> 'v) list"
  GDP_RANGES :: "('v \<times> 'v) list"
  GHG_NO_LUCF :: "('v \<times> 'v) list"
  GHG_LUCF :: "('v \<times> 'v) list"
  e_literal_eval :: "string \<Rightarrow> error + 'l"
  e_other_int :: int_parser
  e_index :: "law_doc list"
  e_store :: "law list"
  e_analysis :: analysis
  e_respond :: "search \<Rightarrow> nat \<Rightarrow> nat \<Rightarrow> hit list"
  LAWS_PER_PAGE :: nat
  TAXONOMY_CONNECTOR :: string

definition RANGE_FIELDS :: "('l, 'v) env \<Rightarrow> 'v range_fields" where
  "RANGE_FIELDS e =
     [(''population'', POP_RANGES e), (''hdi2015'', HDI_RANGES e), (''gdp_capita'', GDP_RANGES e),
      (''ghg_no_lucf'', GHG_NO_LUCF e), (''ghg_lucf'', GHG_LUCF e)]"

definition page_param :: "querydict \<Rightarrow> page_arg" where
  "page_param G = (case get_param G ''page'' of None \<Rightarrow> PageInt 1 | Some t \<Rightarrow> PageStr t)"

definition get_queryset :: "('l, 'v::linorder) env \<Rightarrow> querydict \<Rightarrow> error + (int \<times> law list)" where
  "get_queryset e G =
     bind_err (facet_stage (e_other_int e) (e_classifications e) (e_tags e) G) (\<lambda>fa.
       let sort_by = get_sort G in
       bind_err (if \<not> truthy sort_by
                 then unsorted_search (e_other_int e) (e_literal_eval e) (RANGE_FIELDS e)
                        (e_countries e) G fa new_search
                 else Inr new_search) (\<lambda>s.
         paginate (e_other_int e) (LAWS_PER_PAGE e) (es_count (e_analysis e) (e_index e) s)
           (getitem (e_analysis e) (e_index e) (e_store e) (TAXONOMY_CONNECTOR e) (e_respond e) s sort_by)
           (page_param G)))"

section \<open>Predicates used to state the properties\<close>

text \<open>
  One of the requested names matches one of the values of a field; with equality as the
  phrase match this says that the two name lists intersect.
\<close>

definition names_match :: "analysis \<Rightarrow> string list \<Rightarrow> string list \<Rightarrow> bool" where
  "names_match an names vs = list_ex (\<lambda>n. list_ex (phrase_match an n) vs) names"

text \<open>The facet predicates hold in the parent document, and in one article.\<close>

definition facets_in_law :: "analysis \<Rightarrow> facets \<Rightarrow> law_doc \<Rightarrow> bool" where
  "facets_in_law an fa d = list_all (doc_matches an d) (law_queries fa)"

definition facets_in_article :: "analysis \<Rightarrow> facets \<Rightarrow> article_doc \<Rightarrow> bool" where
  "facets_in_article an fa a = list_all (article_matches an a) (article_queries fa)"

text \<open>The free text matches in the parent document, and inside one article.\<close>

definition text_in_law :: "analysis \<Rightarrow> string \<Rightarrow> law_doc \<Rightarrow> bool" where
  "text_in_law an t d \<longleftrightarrow>
     text_match an t (title d) \<or> text_match an t (abstract d) \<or> text_match an t (pdf_text d) \<or>
     list_ex (text_match an t) (classifications d) \<or> list_ex (text_match an t) (tags d)"

definition text_in_article :: "analysis \<Rightarrow> string \<Rightarrow> article_doc \<Rightarrow> bool" where
  "text_in_article an t a \<longleftrightarrow> text_match an t (a_text a) \<or> phrase_match an t (a_text a)"

text \<open>One of the three year fields of a document lies between \<open>a\<close> and \<open>b\<close>.\<close>

definition in_years :: "int \<Rightarrow> int \<Rightarrow> law_doc \<Rightarrow> bool" where
  "in_years a b d \<longleftrightarrow>
     (a \<le> year d \<and> year d \<le> b) \<or>
     (case year_amendment d of None \<Rightarrow> False | Some y \<Rightarrow> a \<le> y \<and> y \<le> b) \<or>
     list_ex (\<lambda>y. a \<le> y \<and> y \<le> b) (year_mentions d)"

text \<open>
  The query that \<^verbatim>\<open>reduce(operator.or_, ...)\<close> builds from the phrase queries of a
  non-empty list of names on one field.
\<close>

definition any_phrase :: "string \<Rightarrow> string list \<Rightarrow> query" where
  "any_phrase f names = foldl Or (MatchPhrase f (hd names)) (map (MatchPhrase f) (tl names))"

text \<open>
  A document-level facet query and an article-level facet query are linked when, in a
  consistent index, an article that satisfies the second makes its document satisfy the
  first.
\<close>

definition facet_linked :: "query \<Rightarrow> query \<Rightarrow> bool" where
  "facet_linked ql qa \<longleftrightarrow>
     (\<forall>an d a. index_consistent d \<longrightarrow> a \<in> set (articles d) \<longrightarrow>
        article_matches an a qa \<longrightarrow> doc_matches an d ql)"

text \<open>
  The names \<^verbatim>\<open>__getitem__\<close> extracts from one highlight key of a hit, and from the keys
  \<^verbatim>\<open>article_tags\<close> and \<^verbatim>\<open>article_classifications\<close> of a hit.
\<close>

definition own_names :: "string \<Rightarrow> highlights \<Rightarrow> string \<Rightarrow> string list" where
  "own_names conn h key =
     (case h key of
        None \<Rightarrow> []
      | Some fragments \<Rightarrow>
          map slice_4_5 (filter (contains ''<em>'') (split_on conn [] (hd fragments))))"

definition hit_names :: "string \<Rightarrow> hit \<Rightarrow> string list \<times> string list" where
  "hit_names conn h =
     (case hit_highlight h of
        None \<Rightarrow> ([], [])
      | Some hl \<Rightarrow> (own_names conn hl ''article_tags'', own_names conn hl ''article_classifications''))"

text \<open>
  A hit whose highlights can be read: the separator is not empty and no highlight that
  is indexed with \<^verbatim>\<open>[0]\<close> is an empty list.
\<close>

definition hit_ok :: "string \<Rightarrow> hit \<Rightarrow> bool" where
  "hit_ok conn h \<longleftrightarrow>
     conn \<noteq> [] \<and>
     (case hit_highlight h of
        None \<Rightarrow> True
      | Some hl \<Rightarrow>
          list_all (\<lambda>k. hl k \<noteq> Some [])
            [''title'', ''classifications'', ''article_classifications'', ''tags'', ''article_tags''])"

text \<open>An article has a tag among \<open>mt\<close> or a classification among \<open>mc\<close>.\<close>

definition article_intersects :: "string list \<Rightarrow> string list \<Rightarrow> article \<Rightarrow> bool" where
  "article_intersects mt mc a \<longleftrightarrow>
     set (article_tag_names a) \<inter> set mt \<noteq> {} \<or>
     set (article_classification_names a) \<inter> set mc \<noteq> {}"

section \<open>Example data\<close>

text \<open>
  Small concrete requests, tables, indexed documents, hits and records, on which the
  properties below are evaluated.
\<close>

text \<open>
  The requests below are short ASCII strings, so the parser for the other strings is
  never consulted; it is taken to accept nothing.
\<close>

definition ex_other_int :: int_parser where
  "ex_other_int = (\<lambda>s. None)"

definition ex_analysis :: analysis where
  "ex_analysis = \<lparr>phrase_match = (\<lambda>p v. p = v), text_match = (\<lambda>t v. contains t v)\<rparr>"

definition ex_env :: "(bool, int) env" where
  "ex_env =
     \<lparr>e_classifications = [(1, ''Energy'')],
      e_tags = [(1, ''Adaptation'')],
      e_countries = [],
      POP_RANGES = [(0, 10), (11, 20), (21, 30)],
      HDI_RANGES = [], GDP_RANGES = [], GHG_NO_LUCF = [], GHG_LUCF = [],
      e_literal_eval = (\<lambda>t. if t = ''True'' then Inr True
                              else if t = ''False'' then Inr False else Inl ValueError),
      e_other_int = ex_other_int,
      e_index = [],
      e_store = [],
      e_analysis = ex_analysis,
      e_respond = (\<lambda>s b t. []),
      LAWS_PER_PAGE = 10,
      TAXONOMY_CONNECTOR = '', ''\<rparr>"

definition ex_no_params :: querydict where
  "ex_no_params = (\<lambda>k. [])"

definition ex_bad_tag :: querydict where
  "ex_bad_tag = (\<lambda>k. if k = ''tags[]'' then [''x''] else [])"

definition ex_population :: "string \<Rightarrow> querydict" where
  "ex_population v = (\<lambda>k. if k = ''population'' then [v] else [])"

definition stored_law :: "int \<Rightarrow> article list \<Rightarrow> law" where
  "stored_law k arts =
     \<lparr>pk = k, law_articles = arts, highlighted_abstract = None, highlighted_pdf_text = None,
      highlighted_title = None, highlighted_classifications = None, highlighted_tags = None,
      highlighted_articles = None\<rparr>"

definition title_hit :: "int \<Rightarrow> string \<Rightarrow> hit" where
  "title_hit k t =
     \<lparr>hit_id = k, hit_highlight = Some (\<lambda>key. if key = ''title'' then Some [t] else None),
      inner_hits = None\<rparr>"

definition ex_tag_hit :: "int \<Rightarrow> hit" where
  "ex_tag_hit k =
     \<lparr>hit_id = k,
      hit_highlight =
        Some (\<lambda>key. if key = ''article_tags'' then Some [''<em>Adaptation</em>''] else None),
      inner_hits = Some []\<rparr>"

definition ex_plain_hit :: "int \<Rightarrow> hit" where
  "ex_plain_hit k = \<lparr>hit_id = k, hit_highlight = None, inner_hits = Some []\<rparr>"

definition ex_article :: article where
  "ex_article = \<lparr>article_pk = 7, article_code = ''Art. 1'', article_tag_names = [''Adaptation''],
                 article_classification_names = []\<rparr>"

definition ex_unknown_tag :: querydict where
  "ex_unknown_tag = (\<lambda>k. if k = ''tags[]'' then [''999''] else [])"

definition ex_known_tag :: querydict where
  "ex_known_tag = (\<lambda>k. if k = ''tags[]'' then [''1''] else [])"

definition ex_text_request :: querydict where
  "ex_text_request =
     (\<lambda>k. if k = ''q'' then [''climate''] else if k = ''tags[]'' then [''1''] else [])"

definition ex_years :: querydict where
  "ex_years =
     (\<lambda>k. if k = ''from_year'' then [''2010''] else if k = ''to_year'' then [''2015''] else [])"

definition ex_sorted :: querydict where
  "ex_sorted = (\<lambda>k. if k = ''promulgation_sort'' then [''1''] else [])"

definition ex_doc :: "int \<Rightarrow> int \<Rightarrow> law_doc" where
  "ex_doc k y =
     \<lparr>doc_id = k, title = ''Law'', abstract = [], pdf_text = [], classifications = [],
      tags = [], article_classifications = [], article_tags = [], country = ''RO'',
      country_name = ''Romania'', law_type = ''Law'', year = y, year_amendment = None,
      year_mentions = [], articles = []\<rparr>"

definition ex_env_laws :: "(bool, int) env" where
  "ex_env_laws =
     ex_env\<lparr>e_index := [ex_doc 1 2015, ex_doc 2 2010],
            e_store := [stored_law 1 [], stored_law 2 []]\<rparr>"

definition ex_facets :: facets where
  "ex_facets =
     \<lparr>classification_ids = [], tag_ids = [1],
      law_queries = [Or (MatchPhrase ''tags'' ''Adaptation'')
                        (MatchPhrase ''article_tags'' ''Adaptation'')],
      article_queries = [Or (MatchPhrase ''articles.tags_text'' ''Adaptation'')
                            (MatchPhrase ''articles.parent_tags'' ''Adaptation'')],
      article_highlights = [(''articles.tags_text'', Some 0)]\<rparr>"

definition ex_law_doc :: law_doc where
  "ex_law_doc =
     \<lparr>doc_id = 1, title = ''A climate law'', abstract = [], pdf_text = [], classifications = [],
      tags = [], article_classifications = [], article_tags = [''Adaptation''],
      country = ''RO'', country_name = ''Romania'', law_type = ''Law'', year = 2012,
      year_amendment = None, year_mentions = [],
      articles = [\<lparr>a_text = ''On adaptation'', classifications_text = [],
                   tags_text = [''Adaptation''], parent_classifications = [],
                   parent_tags = []\<rparr>]\<rparr>"

section \<open>Properties\<close>

subsection \<open>Reading an integer\<close>

lemmas py_int_defs = py_int_def ascii_int_def is_ascii_def strip_def is_space_def py_digits_def
  is_digit_def digit_val_def

lemma py_int_short_ascii:
  "list_all is_ascii s \<Longrightarrow> length s \<le> 640 \<Longrightarrow> py_int oi s = ascii_int s"
  by (simp add: py_int_def)

text \<open>
  Some values of \<^verbatim>\<open>int\<close>: whitespace around the digits, a sign, leading zeros and single
  underscores are accepted; a sign apart from the digits, a doubled, leading or trailing
  underscore, a decimal point, the empty string and the separator U+001C are not.
\<close>

lemma ascii_int_accepts:
  "ascii_int '' 42 '' = Some 42 \<and> ascii_int ''-1'' = Some (- 1) \<and> ascii_int ''+7'' = Some 7 \<and>
   ascii_int ''007'' = Some 7 \<and> ascii_int ''1_000'' = Some 1000 \<and>
   ascii_int [CHR 0x09, CHR ''5'', CHR 0x0A] = Some 5"
  by (simp add: py_int_defs)

lemma ascii_int_rejects:
  "ascii_int [] = None \<and> ascii_int ''x'' = None \<and> ascii_int ''- 1'' = None \<and>
   ascii_int ''1__0'' = None \<and> ascii_int ''_1'' = None \<and> ascii_int ''1_'' = None \<and>
   ascii_int ''1.5'' = None \<and> ascii_int ''1 2'' = None \<and>
   ascii_int [CHR 0x1C, CHR ''1''] = None \<and> ascii_int [CHR ''1'', CHR 0x1F] = None"
  by (simp add: py_int_defs)

subsection \<open>The unsorted path\<close>

lemma reduce_and_nonempty: "qs \<noteq> [] \<Longrightarrow> reduce_and qs = Inr (foldl And (hd qs) (tl qs))"
  by (cases qs) (simp_all add: reduce_and_def)

lemma nested_articles_nonempty:
  "qs \<noteq> [] \<Longrightarrow> nested_articles qs hl = Inr [Nested ''articles'' (foldl And (hd qs) (tl qs)) hl]"
  by (simp add: nested_articles_def reduce_and_nonempty bind_err_def)

lemma text_query_Inr:
  "text_query fa q s =
     Inr (add_highlight [''abstract'', ''pdf_text''] None
            (add_query
               (Or (Bool (law_queries fa @ law_q_query q @
                            (if article_queries fa \<noteq> []
                             then [Nested ''articles''
                                     (foldl And (hd (article_queries fa)) (tl (article_queries fa)))
                                     (article_highlights fa)]
                             else [])) [] None)
                   (Bool (law_queries fa @
                            (if article_queries fa @ article_q_query q \<noteq> []
                             then [Nested ''articles''
                                     (foldl And (hd (article_queries fa @ article_q_query q))
                                        (tl (article_queries fa @ article_q_query q)))
                                     (article_highlights fa @ article_q_highlights)]
                             else [])) [] None)) s))"
  by (simp add: text_query_def nested_articles_nonempty bind_err_def Let_def)

lemma facet_query_Inr:
  "facet_query fa s =
     Inr (if law_queries fa \<noteq> [] then
            add_query (Bool [] (foldl And (hd (law_queries fa)) (tl (law_queries fa)) #
                                (if article_queries fa \<noteq> []
                                 then [Nested ''articles''
                                         (foldl And (hd (article_queries fa)) (tl (article_queries fa)))
                                         (article_highlights fa)]
                                 else [])) (Some 1)) s
          else s)"
  by (simp add: facet_query_def nested_articles_nonempty reduce_and_nonempty bind_err_def Let_def py_and_def)

lemma compose_query_total: "\<exists>s'. compose_query fa q s = Inr s'"
  by (simp add: compose_query_def text_query_Inr facet_query_Inr)

lemma call_filter_countries_fails:
  "bind_arguments filter_countries_params 1 [''selected_countries''] = Inl TypeError"
  by (simp add: bind_arguments_def filter_countries_params_def)

lemma country_stage_fails: "country_stage oi le rf cs G s = Inl TypeError"
  unfolding country_stage_def Let_def call_filter_countries_fails by (simp add: bind_err_def)

lemma unsorted_search_fails: "unsorted_search oi le rf cs G fa s = Inl TypeError"
proof -
  obtain s' where "compose_query fa (get_param G ''q'') s = Inr s'"
    using compose_query_total by blast
  then show ?thesis
    by (simp add: unsorted_search_def country_stage_fails bind_err_def Let_def)
qed

lemma get_queryset_unsorted:
  assumes "get_sort G = None"
  shows "get_queryset e G =
           (case facet_stage (e_other_int e) (e_classifications e) (e_tags e) G of
              Inl err \<Rightarrow> Inl err
            | Inr fa \<Rightarrow> Inl TypeError)"
  using assms
  by (simp add: get_queryset_def truthy_def unsorted_search_fails bind_err_def Let_def
      split: sum.splits)

lemma ints_of_error: "ints_of oi ss = Inl err \<Longrightarrow> err = ValueError"
proof (induction ss)
  case Nil
  then show ?case by simp
next
  case (Cons s ss)
  then show ?case
    by (auto simp add: bind_err_def int_of_str_def split: sum.splits option.splits)
qed

lemma reduce_or_error: "reduce_or qs = Inl err \<Longrightarrow> err = TypeError"
  by (cases qs) (simp_all add: reduce_or_def)

lemma classification_stage_error:
  "classification_stage oi table G fa = Inl err \<Longrightarrow> err = TypeError \<or> err = ValueError"
  unfolding classification_stage_def bind_err_def Let_def
  by (auto split: sum.splits if_splits dest: ints_of_error reduce_or_error)

lemma tag_stage_error:
  "tag_stage oi table G fa = Inl err \<Longrightarrow> err = TypeError \<or> err = ValueError"
  unfolding tag_stage_def bind_err_def Let_def
  by (auto split: sum.splits if_splits dest: ints_of_error reduce_or_error)

lemma facet_stage_error:
  "facet_stage oi ct tt G = Inl err \<Longrightarrow> err = TypeError \<or> err = ValueError"
  unfolding facet_stage_def bind_err_def
  by (auto split: sum.splits dest: classification_stage_error tag_stage_error)

text \<open>
  C1 (amended).  A request without a sort parameter never gets a page.  When the facets
  are read without an exception, \<^verbatim>\<open>get_queryset\<close> raises \<^verbatim>\<open>TypeError\<close> at the call
  \<^verbatim>\<open>filter_countries(self.request, selected_countries=...)\<close>, whose keyword names no
  parameter of the method.  Otherwise the exception of the facet stage is raised, a
  \<^verbatim>\<open>ValueError\<close> (an identifier that is not an integer) or a \<^verbatim>\<open>TypeError\<close>.
\<close>

theorem unsorted_search_never_completes:
  assumes "get_sort G = None"
  shows "get_queryset e G =
           (case facet_stage (e_other_int e) (e_classifications e) (e_tags e) G of
              Inl err \<Rightarrow> Inl err
            | Inr fa \<Rightarrow> Inl TypeError) \<and>
         (get_queryset e G = Inl TypeError \<or> get_queryset e G = Inl ValueError)"
proof -
  have eq: "get_queryset e G =
           (case facet_stage (e_other_int e) (e_classifications e) (e_tags e) G of
              Inl err \<Rightarrow> Inl err
            | Inr fa \<Rightarrow> Inl TypeError)"
    using assms by (rule get_queryset_unsorted)
  show ?thesis
  proof (cases "facet_stage (e_other_int e) (e_classifications e) (e_tags e) G")
    case (Inl err)
    then show ?thesis using eq facet_stage_error [OF Inl] by auto
  next
    case (Inr fa)
    then show ?thesis using eq by simp
  qed
qed

theorem unsorted_search_never_completes_witness:
  "get_sort ex_no_params = None \<and> get_queryset ex_env ex_no_params = Inl TypeError"
proof -
  have s: "get_sort ex_no_params = None"
    by (simp add: get_sort_def get_param_def ex_no_params_def truthy_def)
  have f: "facet_stage (e_other_int ex_env) (e_classifications ex_env) (e_tags ex_env) ex_no_params = Inr no_facets"
    by (simp add: facet_stage_def classification_stage_def tag_stage_def getlist_def
        ex_no_params_def bind_err_def no_facets_def)
  show ?thesis using unsorted_search_never_completes [OF s, of ex_env] s f by simp
qed

text \<open>
  The claim as stated fails: a request whose only parameter is \<^verbatim>\<open>tags[]=x\<close> has no sort
  parameter and raises \<^verbatim>\<open>ValueError\<close>, at \<^verbatim>\<open>int(pk)\<close>, not \<^verbatim>\<open>TypeError\<close>.
\<close>

theorem unsorted_search_value_error:
  "get_sort ex_bad_tag = None \<and> get_queryset ex_env ex_bad_tag = Inl ValueError"
proof -
  have s: "get_sort ex_bad_tag = None"
    by (simp add: get_sort_def get_param_def ex_bad_tag_def truthy_def)
  have x: "py_int (e_other_int ex_env) ''x'' = None"
    by (simp add: py_int_defs)
  have f: "facet_stage (e_other_int ex_env) (e_classifications ex_env) (e_tags ex_env) ex_bad_tag = Inl ValueError"
    by (simp add: facet_stage_def classification_stage_def tag_stage_def getlist_def
        ex_bad_tag_def bind_err_def no_facets_def int_of_str_def x)
  show ?thesis using get_queryset_unsorted [OF s, of ex_env] s f by simp
qed

subsection \<open>Range buckets\<close>

lemma filter_range_fields_table:
  assumes "map_of RF field = Some table" and "G field \<noteq> []"
  shows "filter_range_fields oi RF G field data =
     (case py_int oi (last (G field)) of
        None \<Rightarrow> Inl ValueError
      | Some i \<Rightarrow>
          if 0 \<le> i \<and> i < int (length table) then
            Inr (data(field @ ''__gte'' \<mapsto> Bound (fst (table ! nat i)),
                      field @ ''__lte'' \<mapsto> Bound (snd (table ! nat i))))
          else if - int (length table) \<le> i \<and> i < 0 then
            Inr (data(field @ ''__gte'' \<mapsto> Bound (fst (table ! nat (int (length table) + i))),
                      field @ ''__lte'' \<mapsto> Bound (snd (table ! nat (int (length table) + i)))))
          else Inl IndexError)"
proof (cases "py_int oi (last (G field))")
  case None
  then show ?thesis using assms
    by (simp add: filter_range_fields_def getlist_def get_param_def int_of_opt_def int_of_str_def bind_err_def)
next
  case (Some i)
  then have i: "int_of_opt oi (get_param G field) = Inr i"
    using assms by (simp add: get_param_def int_of_opt_def int_of_str_def)
  show ?thesis
    using assms Some
    by (simp add: filter_range_fields_def getlist_def i py_index_def bind_err_def)
qed

lemma range_key_gte_lte: "field @ ''__gte'' \<noteq> field @ ''__lte''"
  by simp

lemma range_key_not_list:
  "f @ ''__name__in'' \<noteq> field @ ''__gte''" "f @ ''__name__in'' \<noteq> field @ ''__lte''"
proof -
  have n: "last (f @ ''__name__in'') = CHR ''n''" by simp
  have e: "last (field @ ''__gte'') = CHR ''e''" "last (field @ ''__lte'') = CHR ''e''" by simp_all
  show "f @ ''__name__in'' \<noteq> field @ ''__gte''"
  proof
    assume "f @ ''__name__in'' = field @ ''__gte''"
    then have "last (f @ ''__name__in'') = last (field @ ''__gte'')" by (rule arg_cong)
    with n e show False by simp
  qed
  show "f @ ''__name__in'' \<noteq> field @ ''__lte''"
  proof
    assume "f @ ''__name__in'' = field @ ''__lte''"
    then have "last (f @ ''__name__in'') = last (field @ ''__lte'')" by (rule arg_cong)
    with n e show False by simp
  qed
qed

lemma range_key_not_boolean:
  assumes "f \<in> set BOOLEAN_FIELDS"
  shows "f \<noteq> field @ ''__gte''" "f \<noteq> field @ ''__lte''"
proof -
  have e: "last (field @ ''__gte'') = CHR ''e''" "last (field @ ''__lte'') = CHR ''e''" by simp_all
  have l: "last f \<noteq> CHR ''e''" using assms by (auto simp add: BOOLEAN_FIELDS_def)
  show "f \<noteq> field @ ''__gte''" using e l by auto
  show "f \<noteq> field @ ''__lte''" using e l by auto
qed

lemma country_matches_range:
  "country_matches [field]
     (Map.empty(field @ ''__gte'' \<mapsto> Bound lo, field @ ''__lte'' \<mapsto> Bound hi)) c
     \<longleftrightarrow> lo \<le> metric c field \<and> metric c field \<le> hi"
proof -
  let ?d = "Map.empty(field @ ''__gte'' \<mapsto> Bound lo, field @ ''__lte'' \<mapsto> Bound hi)"
  have b: "?d f = None" if "f \<in> set BOOLEAN_FIELDS" for f
    using range_key_not_boolean [OF that, of field] by simp
  have l: "?d (f @ ''__name__in'') = None" for f
    using range_key_not_list [of f field] by simp
  have g: "?d (field @ ''__gte'') = Some (Bound lo)"
    using range_key_gte_lte [of field] by simp
  have h: "?d (field @ ''__lte'') = Some (Bound hi)" by simp
  have 1: "list_all (\<lambda>f. case ?d f of Some (Literal l) \<Rightarrow> flag c f = l | _ \<Rightarrow> True) BOOLEAN_FIELDS"
    unfolding list_all_iff using b by simp
  have 2: "list_all (\<lambda>f. case ?d (f @ ''__name__in'') of
                      Some (Names ns) \<Rightarrow> list_ex (\<lambda>n. n \<in> set ns) (related_names c f)
                    | _ \<Rightarrow> True) LIST_FIELDS"
    unfolding list_all_iff using l by simp
  show ?thesis
    unfolding country_matches_def using 1 2 by (simp only: g h) simp
qed

text \<open>
  C4 (amended).  When the parameter of a range field is given, \<^verbatim>\<open>filter_range_fields\<close>
  applies \<^verbatim>\<open>int\<close> to its last value.  When \<^verbatim>\<open>int\<close> gives \<open>i\<close> with \<open>0 \<le> i < n\<close>, for \<open>n\<close>
  buckets, it writes exactly \<^verbatim>\<open>field__gte\<close> and \<^verbatim>\<open>field__lte\<close> with the minimum and the
  maximum of bucket \<open>i\<close>, and a country satisfies these two entries when its value lies
  between them.  A value that \<^verbatim>\<open>int\<close> does not accept raises \<^verbatim>\<open>ValueError\<close>, an index
  \<open>i \<ge> n\<close> or \<open>i < -n\<close> raises \<^verbatim>\<open>IndexError\<close>.  A negative index \<open>-n \<le> i < 0\<close> is not
  rejected: it selects bucket \<open>n + i\<close>.
\<close>

theorem filter_range_fields_bucket:
  assumes "map_of RF field = Some table" and "G field \<noteq> []"
  shows "filter_range_fields oi RF G field data =
     (case py_int oi (last (G field)) of
        None \<Rightarrow> Inl ValueError
      | Some i \<Rightarrow>
          if 0 \<le> i \<and> i < int (length table) then
            Inr (data(field @ ''__gte'' \<mapsto> Bound (fst (table ! nat i)),
                      field @ ''__lte'' \<mapsto> Bound (snd (table ! nat i))))
          else if - int (length table) \<le> i \<and> i < 0 then
            Inr (data(field @ ''__gte'' \<mapsto> Bound (fst (table ! nat (int (length table) + i))),
                      field @ ''__lte'' \<mapsto> Bound (snd (table ! nat (int (length table) + i)))))
          else Inl IndexError) \<and>
     (country_matches [field]
           (Map.empty(field @ ''__gte'' \<mapsto> Bound lo, field @ ''__lte'' \<mapsto> Bound hi)) c
         \<longleftrightarrow> lo \<le> metric c field \<and> metric c field \<le> hi)"
  using filter_range_fields_table [where G = G and field = field, OF assms]
    country_matches_range [of field lo hi c]
  by (rule conjI)

theorem filter_range_fields_bucket_witness:
  "filter_range_fields ex_other_int (RANGE_FIELDS ex_env) (ex_population ''2'') ''population''
     (Map.empty :: (bool, int) filter_data) =
   Inr (Map.empty(''population__gte'' \<mapsto> Bound 21, ''population__lte'' \<mapsto> Bound 30))"
proof -
  have t: "map_of (RANGE_FIELDS ex_env) ''population'' = Some [(0, 10), (11, 20), (21, 30)]"
    by (simp add: RANGE_FIELDS_def ex_env_def)
  have g: "ex_population ''2'' ''population'' \<noteq> []"
    by (simp add: ex_population_def)
  have i: "py_int ex_other_int (last (ex_population ''2'' ''population'')) = Some 2"
    by (simp add: ex_population_def py_int_defs)
  show ?thesis
    using filter_range_fields_bucket
      [where G = "ex_population ''2''" and field = "''population''"
         and data = "Map.empty :: (bool, int) filter_data", OF t g, THEN conjunct1] i
    by simp
qed

text \<open>
  The claim as stated fails: the index \<open>-1\<close> is outside \<open>0 \<dots> 2\<close>, and it is not
  rejected but selects the last bucket.
\<close>

theorem filter_range_fields_negative_index:
  "filter_range_fields ex_other_int (RANGE_FIELDS ex_env) (ex_population ''-1'') ''population''
     (Map.empty :: (bool, int) filter_data) =
   Inr (Map.empty(''population__gte'' \<mapsto> Bound 21, ''population__lte'' \<mapsto> Bound 30))"
proof -
  have t: "map_of (RANGE_FIELDS ex_env) ''population'' = Some [(0, 10), (11, 20), (21, 30)]"
    by (simp add: RANGE_FIELDS_def ex_env_def)
  have g: "ex_population ''-1'' ''population'' \<noteq> []"
    by (simp add: ex_population_def)
  have i: "py_int ex_other_int (last (ex_population ''-1'' ''population'')) = Some (- 1)"
    by (simp add: ex_population_def py_int_defs)
  show ?thesis
    using filter_range_fields_table
      [where G = "ex_population ''-1''" and field = "''population''"
         and data = "Map.empty :: (bool, int) filter_data", OF t g] i
    by simp
qed

subsection \<open>Pages\<close>

lemma num_pages_pos:
  "0 < per_page \<Longrightarrow> num_pages per_page n_results = Inr ((max 1 n_results + per_page - 1) div per_page)"
  by (simp add: num_pages_def allow_empty_first_page_def)

lemma last_page_ge_1: "0 < (per_page::nat) \<Longrightarrow> 1 \<le> (max 1 n_results + per_page - 1) div per_page"
proof -
  assume p: "0 < per_page"
  have "per_page \<le> max 1 n_results + per_page - 1" by arith
  then have "per_page div per_page \<le> (max 1 n_results + per_page - 1) div per_page"
    by (rule div_le_mono)
  with p show ?thesis by simp
qed

lemma validate_number_valid:
  assumes "0 < per_page" and "1 \<le> n" and "n \<le> int ((max 1 n_results + per_page - 1) div per_page)"
  shows "validate_number oi per_page n_results (PageInt n) = Inr n"
  using assms by (simp add: validate_number_def page_arg_int_def num_pages_pos bind_err_def)

lemma page_valid:
  assumes "0 < per_page" and "1 \<le> n" and "n \<le> int ((max 1 n_results + per_page - 1) div per_page)"
  shows "page oi per_page n_results (\<lambda>b t. Inr (f b t)) (PageInt n) =
           Inr (n, f ((nat n - 1) * per_page) (min ((nat n - 1) * per_page + per_page) n_results))"
  unfolding page_def validate_number_valid [OF assms]
  by (simp add: bind_err_def Let_def min_def)

lemma paginate_chosen:
  assumes "0 < per_page"
  shows "paginate oi per_page n_results (\<lambda>b t. Inr (f b t)) a =
     (let np = (max 1 n_results + per_page - 1) div per_page;
          n = (case page_arg_int oi a of
                 None \<Rightarrow> 1
               | Some k \<Rightarrow> if 1 \<le> k \<and> k \<le> int np then k else int np);
          bottom = (nat n - 1) * per_page
      in Inr (n, f bottom (min (bottom + per_page) n_results)))"
proof -
  let ?np = "(max 1 n_results + per_page - 1) div per_page"
  let ?g = "\<lambda>b t. Inr (f b t) :: error + 'a"
  have np1: "1 \<le> ?np" using assms by (rule last_page_ge_1)
  have first: "page oi per_page n_results ?g (PageInt 1) = Inr (1, f 0 (min per_page n_results))"
    using page_valid [where n = 1 and n_results = n_results and f = f and oi = oi, OF assms] np1 by simp
  have lastp: "page oi per_page n_results ?g (PageInt (int ?np)) =
      Inr (int ?np, f ((?np - 1) * per_page) (min ((?np - 1) * per_page + per_page) n_results))"
    using page_valid [where n = "int ?np" and n_results = n_results and f = f and oi = oi, OF assms] np1 by simp
  show ?thesis
  proof (cases "page_arg_int oi a")
    case None
    then have "page oi per_page n_results ?g a = Inl PageNotAnInteger"
      by (simp add: page_def validate_number_def bind_err_def)
    then show ?thesis using None first by (simp add: paginate_def Let_def)
  next
    case (Some k)
    show ?thesis
    proof (cases "1 \<le> k \<and> k \<le> int ?np")
      case True
      have "validate_number oi per_page n_results a = validate_number oi per_page n_results (PageInt k)"
        using Some by (simp add: validate_number_def page_arg_int_def)
      then have "page oi per_page n_results ?g a = page oi per_page n_results ?g (PageInt k)"
        by (simp add: page_def)
      then have "page oi per_page n_results ?g a =
          Inr (k, f ((nat k - 1) * per_page) (min ((nat k - 1) * per_page + per_page) n_results))"
        using True page_valid [where n = k and n_results = n_results and f = f and oi = oi, OF assms] by simp
      then show ?thesis using True Some by (simp add: paginate_def Let_def)
    next
      case False
      have "validate_number oi per_page n_results a = Inl EmptyPage"
      proof (cases "k < 1")
        case True
        then show ?thesis using Some by (simp add: validate_number_def)
      next
        case k1: False
        then have "k > int ?np" using False by simp
        moreover have "k \<noteq> 1" using calculation np1 by simp
        ultimately show ?thesis using Some k1 assms
          by (simp add: validate_number_def num_pages_pos bind_err_def)
      qed
      then have "page oi per_page n_results ?g a = Inl EmptyPage"
        by (simp add: page_def bind_err_def)
      then have pag: "paginate oi per_page n_results ?g a = page oi per_page n_results ?g (PageInt (int ?np))"
        using assms by (simp add: paginate_def num_pages_pos bind_err_def)
      show ?thesis
        unfolding Let_def Some option.case if_not_P [OF False] pag lastp by simp
    qed
  qed
qed

text \<open>
  C5 (amended).  With a positive page size the page operation never raises, whatever the
  result count and the page parameter are (as long as slicing the result set does not
  raise).  A parameter that \<^verbatim>\<open>int\<close> does not accept gives the first page, a page number
  from \<open>1\<close> to the last page gives that page, and every other number gives the last
  page: a number beyond the last page, and also \<open>0\<close> and the negative numbers.
\<close>

theorem paginate_never_raises:
  assumes "0 < per_page"
  shows "paginate oi per_page n_results (\<lambda>b t. Inr (f b t)) a =
     (let np = (max 1 n_results + per_page - 1) div per_page;
          n = (case page_arg_int oi a of
                 None \<Rightarrow> 1
               | Some k \<Rightarrow> if 1 \<le> k \<and> k \<le> int np then k else int np);
          bottom = (nat n - 1) * per_page
      in Inr (n, f bottom (min (bottom + per_page) n_results)))"
  using assms by (rule paginate_chosen)

theorem paginate_never_raises_witness:
  "(0::nat) < 10 \<and>
   paginate ex_other_int 10 25 (\<lambda>b t. Inr (b, t)) (PageStr ''abc'') = Inr (1, (0, 10)) \<and>
   paginate ex_other_int 10 25 (\<lambda>b t. Inr (b, t)) (PageStr ''99'') = Inr (3, (20, 25))"
proof -
  have p: "(0::nat) < 10" by simp
  have a: "page_arg_int ex_other_int (PageStr ''abc'') = None"
    by (simp add: page_arg_int_def py_int_defs)
  have b: "page_arg_int ex_other_int (PageStr ''99'') = Some 99"
    by (simp add: page_arg_int_def py_int_defs)
  show ?thesis
    using paginate_never_raises
        [where n_results = 25 and f = "\<lambda>b t. (b, t)" and a = "PageStr ''abc''"
           and oi = ex_other_int, OF p]
      paginate_never_raises
        [where n_results = 25 and f = "\<lambda>b t. (b, t)" and a = "PageStr ''99''"
           and oi = ex_other_int, OF p] a b
    by (simp add: Let_def)
qed

text \<open>
  The claim as stated fails: with 25 results and 10 per page, page \<open>0\<close> is the last page
  (number 3, results 20 to 25), not the first.
\<close>

theorem paginate_page_zero_is_last:
  "paginate ex_other_int 10 25 (\<lambda>b t. Inr (b, t)) (PageStr ''0'') = Inr (3, (20, 25))"
proof -
  have z: "page_arg_int ex_other_int (PageStr ''0'') = Some 0"
    by (simp add: page_arg_int_def py_int_defs)
  have p: "(0::nat) < 10" by simp
  show ?thesis
    using paginate_chosen
        [where n_results = 25 and f = "\<lambda>b t. (b, t)" and a = "PageStr ''0''"
           and oi = ex_other_int, OF p] z
    by (simp add: Let_def)
qed

subsection \<open>Years\<close>

lemma py_int_empty: "py_int oi [] = None"
  by (simp add: py_int_def ascii_int_def is_ascii_def strip_def)

lemma search_matches_add_query:
  "search_matches an d (add_query q s) \<longleftrightarrow> search_matches an d s \<and> doc_matches an d q"
  by (cases "s_query s") (simp_all add: search_matches_def add_query_def doc_matches_def)

lemma search_matches_add_highlight:
  "search_matches an d (add_highlight fs n s) = search_matches an d s"
  by (simp add: search_matches_def add_highlight_def)

lemma year_ranges_match:
  "doc_matches an d (Or (Or (Range ''year'' a b) (Range ''year_amendment'' a b))
                        (Range ''year_mentions'' a b)) \<longleftrightarrow> in_years a b d"
  by (cases "year_amendment d") (simp_all add: doc_matches_def law_int_values_def in_years_def)

lemma year_stage_both:
  assumes "get_param G ''from_year'' = Some f" and "get_param G ''to_year'' = Some t"
    and "py_int oi f = Some a" and "py_int oi t = Some b"
  shows "year_stage oi G s =
           Inr (add_query (Or (Or (Range ''year'' a b) (Range ''year_amendment'' a b))
                              (Range ''year_mentions'' a b)) s)"
proof -
  have "f \<noteq> []" "t \<noteq> []" using assms py_int_empty by auto
  then show ?thesis using assms
    by (simp add: year_stage_def truthy_def int_of_opt_def int_of_str_def bind_err_def)
qed

lemma year_stage_skipped:
  assumes "\<not> truthy (get_param G ''from_year'') \<or> \<not> truthy (get_param G ''to_year'')"
  shows "year_stage oi G s = Inr s"
  using assms by (auto simp add: year_stage_def Let_def)

text \<open>
  C6.  When \<^verbatim>\<open>from_year\<close> and \<^verbatim>\<open>to_year\<close> are both given as integers \<open>a\<close> and \<open>b\<close>, the
  year stage adds a filter that a document matches exactly when its adoption year, its
  amendment year or one of the years it mentions lies in the inclusive range from \<open>a\<close>
  to \<open>b\<close>.  When one of the two is missing (or empty) the stage leaves the search as it
  is and raises nothing.
\<close>

theorem year_filter:
  "(get_param G ''from_year'' = Some f \<and> get_param G ''to_year'' = Some t \<and>
    py_int oi f = Some a \<and> py_int oi t = Some b \<longrightarrow>
      (\<exists>s'. year_stage oi G s = Inr s' \<and>
            (\<forall>d. search_matches an d s' \<longleftrightarrow> search_matches an d s \<and> in_years a b d))) \<and>
   (\<not> truthy (get_param G ''from_year'') \<or> \<not> truthy (get_param G ''to_year'') \<longrightarrow>
      year_stage oi G s = Inr s)"
proof (intro conjI impI)
  assume h: "get_param G ''from_year'' = Some f \<and> get_param G ''to_year'' = Some t \<and>
    py_int oi f = Some a \<and> py_int oi t = Some b"
  then have "year_stage oi G s =
           Inr (add_query (Or (Or (Range ''year'' a b) (Range ''year_amendment'' a b))
                              (Range ''year_mentions'' a b)) s)"
    using year_stage_both by blast
  then show "\<exists>s'. year_stage oi G s = Inr s' \<and>
            (\<forall>d. search_matches an d s' \<longleftrightarrow> search_matches an d s \<and> in_years a b d)"
    by (simp add: search_matches_add_query year_ranges_match)
next
  assume "\<not> truthy (get_param G ''from_year'') \<or> \<not> truthy (get_param G ''to_year'')"
  then show "year_stage oi G s = Inr s" by (rule year_stage_skipped)
qed

theorem year_filter_witness:
  "get_param ex_years ''from_year'' = Some ''2010'' \<and>
   get_param ex_years ''to_year'' = Some ''2015'' \<and>
   py_int ex_other_int ''2010'' = Some 2010 \<and> py_int ex_other_int ''2015'' = Some 2015 \<and>
   (\<exists>s'. year_stage ex_other_int ex_years new_search = Inr s' \<and>
         search_matches ex_analysis (ex_doc 1 2012) s' \<and>
         \<not> search_matches ex_analysis (ex_doc 2 2020) s') \<and>
   \<not> truthy (get_param ex_no_params ''from_year'') \<and>
   year_stage ex_other_int ex_no_params new_search = Inr new_search"
proof -
  have a: "get_param ex_years ''from_year'' = Some ''2010''"
    and b: "get_param ex_years ''to_year'' = Some ''2015''"
    by (simp_all add: get_param_def ex_years_def)
  have c: "py_int ex_other_int ''2010'' = Some 2010" and d: "py_int ex_other_int ''2015'' = Some 2015"
    by (simp_all add: py_int_defs)
  have e: "\<not> truthy (get_param ex_no_params ''from_year'')"
    by (simp add: truthy_def get_param_def ex_no_params_def)
  have i: "in_years 2010 2015 (ex_doc 1 2012)" "\<not> in_years 2010 2015 (ex_doc 2 2020)"
    by (simp_all add: in_years_def ex_doc_def)
  have m: "search_matches ex_analysis d new_search" for d
    by (simp add: search_matches_def new_search_def)
  show ?thesis
    using year_filter [where G = ex_years and f = "''2010''" and t = "''2015''" and a = 2010 and b = 2015
        and s = new_search and an = ex_analysis and oi = ex_other_int]
      year_filter [where G = ex_no_params and f = "''2010''" and t = "''2015''" and a = 2010 and b = 2015
        and s = new_search and an = ex_analysis and oi = ex_other_int]
      a b c d e i m
    by auto
qed

subsection \<open>Facets and free text\<close>

lemma matches_foldl_Or:
  "matches an tv iv ch (foldl Or q qs) \<longleftrightarrow>
     matches an tv iv ch q \<or> list_ex (matches an tv iv ch) qs"
  by (induction qs arbitrary: q) auto

lemma matches_foldl_And:
  "matches an tv iv ch (foldl And q qs) \<longleftrightarrow>
     matches an tv iv ch q \<and> list_all (matches an tv iv ch) qs"
  by (induction qs arbitrary: q) auto

lemma matches_reduce_and:
  "qs \<noteq> [] \<Longrightarrow>
   matches an tv iv ch (foldl And (hd qs) (tl qs)) \<longleftrightarrow> list_all (matches an tv iv ch) qs"
  by (cases qs) (simp_all add: matches_foldl_And)

lemma reduce_or_any:
  "names \<noteq> [] \<Longrightarrow> reduce_or (map (MatchPhrase f) names) = Inr (any_phrase f names)"
  by (cases names) (simp_all add: reduce_or_def any_phrase_def)

lemma reduce_or_none: "reduce_or [] = Inl TypeError"
  by (simp add: reduce_or_def)

lemma matches_any_phrase:
  "names \<noteq> [] \<Longrightarrow> matches an tv iv ch (any_phrase f names) \<longleftrightarrow> names_match an names (tv f)"
  by (cases names) (auto simp add: any_phrase_def matches_foldl_Or names_match_def list_ex_iff)

lemma names_match_mono:
  "names_match an names vs \<Longrightarrow> set vs \<subseteq> set ws \<Longrightarrow> names_match an names ws"
  by (auto simp add: names_match_def list_ex_iff)

lemma tag_stage_result:
  assumes "ints_of oi (getlist G ''tags[]'') = Inr ids"
  shows "tag_stage oi table G fa =
     (if ids = [] then Inr (fa\<lparr>tag_ids := ids\<rparr>)
      else if names_of table ids = [] then Inl TypeError
      else Inr (fa\<lparr>tag_ids := ids,
                  law_queries := law_queries fa @
                    [Or (any_phrase ''tags'' (names_of table ids))
                        (any_phrase ''article_tags'' (names_of table ids))],
                  article_queries := article_queries fa @
                    [Or (any_phrase ''articles.tags_text'' (names_of table ids))
                        (any_phrase ''articles.parent_tags'' (names_of table ids))],
                  article_highlights :=
                    article_highlights fa @ [(''articles.tags_text'', Some 0)]\<rparr>))"
  using assms
  by (simp add: tag_stage_def bind_err_def Let_def reduce_or_any reduce_or_none)

lemma classification_stage_result:
  assumes "ints_of oi (getlist G ''classifications[]'') = Inr ids"
  shows "classification_stage oi table G fa =
     (if ids = [] then Inr (fa\<lparr>classification_ids := ids\<rparr>)
      else if names_of table ids = [] then Inl TypeError
      else Inr (fa\<lparr>classification_ids := ids,
                  law_queries := law_queries fa @
                    [Or (any_phrase ''classifications'' (names_of table ids))
                        (any_phrase ''article_classifications'' (names_of table ids))],
                  article_queries := article_queries fa @
                    [Or (any_phrase ''articles.classifications_text'' (names_of table ids))
                        (any_phrase ''articles.parent_classifications'' (names_of table ids))],
                  article_highlights :=
                    article_highlights fa @ [(''articles.classifications_text'', Some 0)]\<rparr>))"
  using assms
  by (simp add: classification_stage_def bind_err_def Let_def reduce_or_any reduce_or_none)

lemma facet_linked_tags:
  "ns \<noteq> [] \<Longrightarrow>
   facet_linked (Or (any_phrase ''tags'' ns) (any_phrase ''article_tags'' ns))
                (Or (any_phrase ''articles.tags_text'' ns) (any_phrase ''articles.parent_tags'' ns))"
proof -
  assume ns: "ns \<noteq> []"
  {
    fix an d a
    assume c: "index_consistent d" and a: "a \<in> set (articles d)"
      and m: "names_match an ns (tags_text a) \<or> names_match an ns (parent_tags a)"
    have 1: "set (tags_text a) \<subseteq> set (article_tags d)"
      using c a by (auto simp add: index_consistent_def)
    have 2: "set (parent_tags a) \<subseteq> set (tags d)"
      using c a by (auto simp add: index_consistent_def list_all_iff)
    from m 1 2 have "names_match an ns (tags d) \<or> names_match an ns (article_tags d)"
      using names_match_mono by blast
  }
  then show ?thesis
    unfolding facet_linked_def
    by (simp add: ns article_matches_def doc_matches_def matches_any_phrase
        article_text_values_def law_text_values_def)
qed

lemma facet_linked_classifications:
  "ns \<noteq> [] \<Longrightarrow>
   facet_linked (Or (any_phrase ''classifications'' ns) (any_phrase ''article_classifications'' ns))
                (Or (any_phrase ''articles.classifications_text'' ns)
                    (any_phrase ''articles.parent_classifications'' ns))"
proof -
  assume ns: "ns \<noteq> []"
  {
    fix an d a
    assume c: "index_consistent d" and a: "a \<in> set (articles d)"
      and m: "names_match an ns (classifications_text a) \<or>
              names_match an ns (parent_classifications a)"
    have 1: "set (classifications_text a) \<subseteq> set (article_classifications d)"
      using c a by (auto simp add: index_consistent_def)
    have 2: "set (parent_classifications a) \<subseteq> set (classifications d)"
      using c a by (auto simp add: index_consistent_def list_all_iff)
    from m 1 2 have "names_match an ns (classifications d) \<or>
                     names_match an ns (article_classifications d)"
      using names_match_mono by blast
  }
  then show ?thesis
    unfolding facet_linked_def
    by (simp add: ns article_matches_def doc_matches_def matches_any_phrase
        article_text_values_def law_text_values_def)
qed

lemma tag_stage_linked:
  assumes "tag_stage oi table G fa = Inr fa'"
    and "list_all2 facet_linked (law_queries fa) (article_queries fa)"
  shows "list_all2 facet_linked (law_queries fa') (article_queries fa')"
proof -
  obtain ids where ids: "ints_of oi (getlist G ''tags[]'') = Inr ids"
    using assms(1) by (cases "ints_of oi (getlist G ''tags[]'')") (simp_all add: tag_stage_def bind_err_def)
  show ?thesis
    using assms tag_stage_result [OF ids, where table = table and fa = fa]
    by (auto simp add: list_all2_appendI facet_linked_tags split: if_splits)
qed

lemma classification_stage_linked:
  assumes "classification_stage oi table G fa = Inr fa'"
    and "list_all2 facet_linked (law_queries fa) (article_queries fa)"
  shows "list_all2 facet_linked (law_queries fa') (article_queries fa')"
proof -
  obtain ids where ids: "ints_of oi (getlist G ''classifications[]'') = Inr ids"
    using assms(1) by (cases "ints_of oi (getlist G ''classifications[]'')")
      (simp_all add: classification_stage_def bind_err_def)
  show ?thesis
    using assms classification_stage_result [OF ids, where table = table and fa = fa]
    by (auto simp add: list_all2_appendI facet_linked_classifications split: if_splits)
qed

lemma facet_stage_linked:
  assumes "facet_stage oi ct tt G = Inr fa"
  shows "list_all2 facet_linked (law_queries fa) (article_queries fa)"
proof -
  obtain fa1 where 1: "classification_stage oi ct G no_facets = Inr fa1"
    and 2: "tag_stage oi tt G fa1 = Inr fa"
    using assms by (cases "classification_stage oi ct G no_facets")
      (simp_all add: facet_stage_def bind_err_def)
  have "list_all2 facet_linked (law_queries no_facets) (article_queries no_facets)"
    by (simp add: no_facets_def)
  then have "list_all2 facet_linked (law_queries fa1) (article_queries fa1)"
    using 1 classification_stage_linked by blast
  then show ?thesis using 2 tag_stage_linked by blast
qed

lemma facets_both_empty:
  assumes "facet_stage oi ct tt G = Inr fa"
  shows "article_queries fa = [] \<longleftrightarrow> law_queries fa = []"
  using facet_stage_linked [OF assms] by (auto dest: list_all2_lengthD)

lemma facets_article_to_law:
  assumes "facet_stage oi ct tt G = Inr fa" and "index_consistent d" and "a \<in> set (articles d)"
    and "facets_in_article an fa a"
  shows "facets_in_law an fa d"
proof -
  have l: "list_all2 facet_linked (law_queries fa) (article_queries fa)"
    using assms(1) by (rule facet_stage_linked)
  have "list_all (doc_matches an d) lq"
    if "list_all2 facet_linked lq aq" and "list_all (article_matches an a) aq" for lq aq
    using that
  proof (induction lq aq rule: list_all2_induct)
    case Nil
    then show ?case by simp
  next
    case (Cons x xs y ys)
    then show ?case using assms(2,3) by (auto simp add: facet_linked_def)
  qed
  then show ?thesis using l assms(4) by (simp add: facets_in_law_def facets_in_article_def)
qed

lemma doc_matches_nested:
  "doc_matches an d (Nested ''articles'' q hl) \<longleftrightarrow> list_ex (\<lambda>a. article_matches an a q) (articles d)"
  by (simp add: doc_matches_def law_children_def article_matches_def list_ex_iff)

lemma doc_matches_fun:
  "doc_matches an d = matches an (law_text_values d) (law_int_values d) (law_children d)"
  by (rule ext) (simp add: doc_matches_def)

lemma facets_in_article_fun:
  "facets_in_article an fa = (\<lambda>a. list_all (article_matches an a) (article_queries fa))"
  by (rule ext) (simp add: facets_in_article_def)

lemma doc_matches_must:
  "doc_matches an d (Bool must [] None) \<longleftrightarrow> list_all (doc_matches an d) must"
  by (simp add: doc_matches_fun)

lemma doc_matches_text:
  "doc_matches an d
     (MultiMatch t [''title'', ''abstract'', ''pdf_text'', ''classifications'', ''tags''])
   \<longleftrightarrow> text_in_law an t d"
  by (simp add: doc_matches_def law_text_values_def text_in_law_def)

lemma article_matches_text:
  "article_matches an a
     (Or (MultiMatch t [''articles.text''])
         (ConstantScore 50 (MatchPhrase ''articles.text'' t)))
   \<longleftrightarrow> text_in_article an t a"
  by (simp add: article_matches_def article_text_values_def text_in_article_def)

lemma article_matches_all:
  "qs \<noteq> [] \<Longrightarrow>
   article_matches an a (foldl And (hd qs) (tl qs)) \<longleftrightarrow> list_all (article_matches an a) qs"
  unfolding article_matches_def by (rule matches_reduce_and)

lemma q_in_law_matches:
  assumes "t \<noteq> []"
  shows "doc_matches an d
     (Bool (law_queries fa @ law_q_query (Some t) @
              (if article_queries fa \<noteq> []
               then [Nested ''articles''
                       (foldl And (hd (article_queries fa)) (tl (article_queries fa)))
                       (article_highlights fa)]
               else [])) [] None)
   \<longleftrightarrow> facets_in_law an fa d \<and> text_in_law an t d \<and>
       (article_queries fa = [] \<or> list_ex (facets_in_article an fa) (articles d))"
proof (cases "article_queries fa = []")
  case True
  then show ?thesis using assms
    by (simp add: doc_matches_must law_q_query_def doc_matches_text facets_in_law_def)
next
  case False
  have "list_ex (\<lambda>a. article_matches an a
                       (foldl And (hd (article_queries fa)) (tl (article_queries fa))))
          (articles d) = list_ex (facets_in_article an fa) (articles d)"
    using False by (simp add: article_matches_all facets_in_article_fun)
  then show ?thesis using False assms
    by (simp add: doc_matches_must law_q_query_def doc_matches_text facets_in_law_def
        doc_matches_nested)
qed

lemma q_in_article_matches:
  assumes "t \<noteq> []"
  shows "doc_matches an d
     (Bool (law_queries fa @
              (if article_queries fa @ article_q_query (Some t) \<noteq> []
               then [Nested ''articles''
                       (foldl And (hd (article_queries fa @ article_q_query (Some t)))
                          (tl (article_queries fa @ article_q_query (Some t))))
                       (article_highlights fa @ article_q_highlights)]
               else [])) [] None)
   \<longleftrightarrow> facets_in_law an fa d \<and>
       list_ex (\<lambda>a. facets_in_article an fa a \<and> text_in_article an t a) (articles d)"
proof -
  let ?qs = "article_queries fa @ article_q_query (Some t)"
  have ne: "?qs \<noteq> []" using assms by (simp add: article_q_query_def)
  have "article_matches an a (foldl And (hd ?qs) (tl ?qs)) \<longleftrightarrow>
          facets_in_article an fa a \<and> text_in_article an t a" for a
    unfolding article_matches_all [OF ne]
    using assms by (simp add: facets_in_article_def article_q_query_def article_matches_text)
  then show ?thesis using ne
    by (simp add: doc_matches_must facets_in_law_def doc_matches_nested)
qed

lemma new_search_matches: "search_matches an d new_search"
  by (simp add: search_matches_def new_search_def)

text \<open>
  C2.  With a free text \<open>t\<close> and no sort, the query composed by lines 330 to 377 is the
  disjunction \<open>Or A B\<close> of two boolean queries, and a document matches it exactly when it
  matches \<open>A\<close> or \<open>B\<close>.  \<open>A\<close> requires the text in the parent document and, inside
  one article, only the facet predicates; \<open>B\<close> requires the facet predicates in the
  parent document and, inside one article, the facet predicates and the text.  As built,
  \<open>A\<close> also lists the document-level facet predicates; in a consistent index they follow
  from the nested facet predicates, so that \<open>A\<close> is the first alternative of the claim.
\<close>

theorem text_query_two_alternatives:
  assumes "facet_stage oi ct tt G = Inr fa" and "get_param G ''q'' = Some t" and "t \<noteq> []"
  shows "\<exists>A B s.
     compose_query fa (get_param G ''q'') new_search = Inr s \<and> s_query s = Some (Or A B) \<and>
     (\<forall>d. search_matches an d s \<longleftrightarrow> doc_matches an d A \<or> doc_matches an d B) \<and>
     (\<forall>d. doc_matches an d A \<longleftrightarrow>
            facets_in_law an fa d \<and> text_in_law an t d \<and>
            (article_queries fa = [] \<or> list_ex (facets_in_article an fa) (articles d))) \<and>
     (\<forall>d. doc_matches an d B \<longleftrightarrow>
            facets_in_law an fa d \<and>
            list_ex (\<lambda>a. facets_in_article an fa a \<and> text_in_article an t a) (articles d)) \<and>
     (\<forall>d. index_consistent d \<longrightarrow>
            (doc_matches an d A \<longleftrightarrow>
               text_in_law an t d \<and>
               (article_queries fa = [] \<or> list_ex (facets_in_article an fa) (articles d))))"
proof -
  let ?A = "Bool (law_queries fa @ law_q_query (Some t) @
                   (if article_queries fa \<noteq> []
                    then [Nested ''articles''
                            (foldl And (hd (article_queries fa)) (tl (article_queries fa)))
                            (article_highlights fa)]
                    else [])) [] None"
  let ?B = "Bool (law_queries fa @
                   (if article_queries fa @ article_q_query (Some t) \<noteq> []
                    then [Nested ''articles''
                            (foldl And (hd (article_queries fa @ article_q_query (Some t)))
                               (tl (article_queries fa @ article_q_query (Some t))))
                            (article_highlights fa @ article_q_highlights)]
                    else [])) [] None"
  let ?s = "add_highlight [''abstract'', ''pdf_text''] None (add_query (Or ?A ?B) new_search)"
  have c: "compose_query fa (get_param G ''q'') new_search = Inr ?s"
    using assms(2,3) by (simp add: compose_query_def truthy_def text_query_Inr)
  have q: "s_query ?s = Some (Or ?A ?B)"
    by (simp add: add_highlight_def add_query_def new_search_def)
  have m: "search_matches an d ?s \<longleftrightarrow> doc_matches an d ?A \<or> doc_matches an d ?B" for d
    by (simp add: search_matches_add_highlight search_matches_add_query new_search_matches
        doc_matches_def)
  have a: "doc_matches an d ?A \<longleftrightarrow>
            facets_in_law an fa d \<and> text_in_law an t d \<and>
            (article_queries fa = [] \<or> list_ex (facets_in_article an fa) (articles d))" for d
    using assms(3) by (rule q_in_law_matches)
  have b: "doc_matches an d ?B \<longleftrightarrow>
            facets_in_law an fa d \<and>
            list_ex (\<lambda>a. facets_in_article an fa a \<and> text_in_article an t a) (articles d)" for d
    using assms(3) by (rule q_in_article_matches)
  have i: "facets_in_law an fa d"
    if ic: "index_consistent d"
      and ne: "article_queries fa = [] \<or> list_ex (facets_in_article an fa) (articles d)" for d
  proof (cases "article_queries fa = []")
    case True
    then have "law_queries fa = []" using facets_both_empty [OF assms(1)] by simp
    then show ?thesis by (simp add: facets_in_law_def)
  next
    case False
    then obtain x where "x \<in> set (articles d)" and "facets_in_article an fa x"
      using ne by (auto simp add: list_ex_iff)
    then show ?thesis using facets_article_to_law [OF assms(1) ic] by blast
  qed
  have a': "index_consistent d \<longrightarrow>
            (doc_matches an d ?A \<longleftrightarrow>
               text_in_law an t d \<and>
               (article_queries fa = [] \<or> list_ex (facets_in_article an fa) (articles d)))" for d
    using a [of d] i [of d] by blast
  show ?thesis
    apply (rule exI [of _ ?A])
    apply (rule exI [of _ ?B])
    apply (rule exI [of _ ?s])
    using c q m a b a' by blast
qed

theorem text_query_two_alternatives_witness:
  "facet_stage ex_other_int [] [(1, ''Adaptation'')] ex_text_request = Inr ex_facets \<and>
   get_param ex_text_request ''q'' = Some ''climate'' \<and> ''climate'' \<noteq> [] \<and>
   index_consistent ex_law_doc \<and>
   (\<exists>A B s. compose_query ex_facets (get_param ex_text_request ''q'') new_search = Inr s \<and>
            s_query s = Some (Or A B) \<and>
            doc_matches ex_analysis ex_law_doc A \<and> search_matches ex_analysis ex_law_doc s)"
proof -
  have f: "facet_stage ex_other_int [] [(1, ''Adaptation'')] ex_text_request = Inr ex_facets"
    by code_simp
  have q: "get_param ex_text_request ''q'' = Some ''climate''"
    by (simp add: get_param_def ex_text_request_def)
  have n: "''climate'' \<noteq> []" by simp
  have c: "index_consistent ex_law_doc"
    by (simp add: index_consistent_def ex_law_doc_def)
  have t: "text_in_law ex_analysis ''climate'' ex_law_doc"
    by (simp add: text_in_law_def ex_analysis_def ex_law_doc_def)
  have a: "list_ex (facets_in_article ex_analysis ex_facets) (articles ex_law_doc)"
    by (simp add: facets_in_article_def ex_facets_def ex_law_doc_def article_matches_def
        article_text_values_def ex_analysis_def)
  show ?thesis
    using text_query_two_alternatives [OF f q n, where an = ex_analysis] f q n c t a by blast
qed

lemma names_of_nil: "names_of table [] = []"
  by (simp add: names_of_def)

lemma names_match_equality:
  "phrase_match an = (\<lambda>p v. p = v) \<Longrightarrow> names_match an ns vs \<longleftrightarrow> set ns \<inter> set vs \<noteq> {}"
  by (auto simp add: names_match_def list_ex_iff)

text \<open>
  Tags alone, naming a tag.  For a request with \<^verbatim>\<open>tags[]\<close> alone (no free text, no
  classifications) whose identifiers are integers that name at least one tag, the facet
  stage and the
  composition stage succeed, and in a consistent index a document matches the composed
  query exactly when one of the requested names matches its own tag list or the tag
  list of one of its articles: a match in the document needs no matching article and a
  match in an article needs no match in the document.  When a phrase matches a name by
  equality, this says that the tag list intersects the requested names.
\<close>

theorem tags_only_matches:
  assumes "getlist G ''classifications[]'' = []" and "\<not> truthy (get_param G ''q'')"
    and "ints_of oi (getlist G ''tags[]'') = Inr ids" and "names_of tt ids \<noteq> []"
  shows "\<exists>fa s.
     facet_stage oi ct tt G = Inr fa \<and> compose_query fa (get_param G ''q'') new_search = Inr s \<and>
     (\<forall>d. index_consistent d \<longrightarrow>
        (search_matches an d s \<longleftrightarrow>
           names_match an (names_of tt ids) (tags d) \<or>
           list_ex (\<lambda>a. names_match an (names_of tt ids) (tags_text a)) (articles d))) \<and>
     (\<forall>d. index_consistent d \<longrightarrow> phrase_match an = (\<lambda>p v. p = v) \<longrightarrow>
        (search_matches an d s \<longleftrightarrow>
           set (names_of tt ids) \<inter> set (tags d) \<noteq> {} \<or>
           list_ex (\<lambda>a. set (names_of tt ids) \<inter> set (tags_text a) \<noteq> {}) (articles d)))"
proof -
  let ?ns = "names_of tt ids"
  let ?ql = "Or (any_phrase ''tags'' ?ns) (any_phrase ''article_tags'' ?ns)"
  let ?qa = "Or (any_phrase ''articles.tags_text'' ?ns) (any_phrase ''articles.parent_tags'' ?ns)"
  let ?fa = "no_facets\<lparr>classification_ids := [], tag_ids := ids, law_queries := [?ql],
               article_queries := [?qa],
               article_highlights := [(''articles.tags_text'', Some 0)]\<rparr>"
  let ?s = "add_query (Bool [] [?ql, Nested ''articles'' ?qa [(''articles.tags_text'', Some 0)]]
                         (Some 1)) new_search"
  have ids: "ids \<noteq> []" using assms(4) names_of_nil by auto
  have c: "classification_stage oi ct G no_facets = Inr (no_facets\<lparr>classification_ids := []\<rparr>)"
    using assms(1) by (simp add: classification_stage_def bind_err_def)
  have t: "tag_stage oi tt G (no_facets\<lparr>classification_ids := []\<rparr>) = Inr ?fa"
    using tag_stage_result [OF assms(3), where table = tt and fa = "no_facets\<lparr>classification_ids := []\<rparr>"] ids assms(4)
    by (simp add: no_facets_def)
  have f: "facet_stage oi ct tt G = Inr ?fa"
    by (simp add: facet_stage_def c t bind_err_def)
  have q: "compose_query ?fa (get_param G ''q'') new_search = Inr ?s"
    using assms(2) by (simp add: compose_query_def facet_query_Inr)
  have m: "search_matches an d ?s \<longleftrightarrow>
             names_match an ?ns (tags d) \<or>
             list_ex (\<lambda>a. names_match an ?ns (tags_text a)) (articles d)"
    if cons: "index_consistent d" for d
  proof -
    have 1: "doc_matches an d ?ql \<longleftrightarrow> names_match an ?ns (tags d) \<or> names_match an ?ns (article_tags d)"
      using assms(4) by (simp add: doc_matches_def matches_any_phrase law_text_values_def)
    have 2: "doc_matches an d (Nested ''articles'' ?qa [(''articles.tags_text'', Some 0)]) \<longleftrightarrow>
             list_ex (\<lambda>a. names_match an ?ns (tags_text a) \<or> names_match an ?ns (parent_tags a))
               (articles d)"
      using assms(4)
      by (simp add: doc_matches_nested article_matches_def matches_any_phrase
          article_text_values_def)
    have 3: "search_matches an d ?s \<longleftrightarrow>
              doc_matches an d ?ql \<or>
              doc_matches an d (Nested ''articles'' ?qa [(''articles.tags_text'', Some 0)])"
      by (auto simp add: search_matches_add_query new_search_matches doc_matches_def)
    have 4: "names_match an ?ns (article_tags d) \<longleftrightarrow>
             list_ex (\<lambda>a. names_match an ?ns (tags_text a)) (articles d)"
      using cons by (auto simp add: index_consistent_def names_match_def list_ex_iff)
    have 5: "names_match an ?ns (parent_tags a) \<longleftrightarrow> names_match an ?ns (tags d)"
      if "a \<in> set (articles d)" for a
      using cons that by (auto simp add: index_consistent_def names_match_def list_ex_iff list_all_iff)
    have 6: "list_ex (\<lambda>a. names_match an ?ns (tags_text a) \<or> names_match an ?ns (parent_tags a))
               (articles d) \<longrightarrow>
             names_match an ?ns (tags d) \<or>
             list_ex (\<lambda>a. names_match an ?ns (tags_text a)) (articles d)"
      using 5 by (auto simp add: list_ex_iff)
    have 7: "list_ex (\<lambda>a. names_match an ?ns (tags_text a)) (articles d) \<longrightarrow>
             list_ex (\<lambda>a. names_match an ?ns (tags_text a) \<or> names_match an ?ns (parent_tags a))
               (articles d)"
      by (auto simp add: list_ex_iff)
    show ?thesis using 1 2 3 4 6 7 by blast
  qed
  have e: "search_matches an d ?s \<longleftrightarrow>
             set ?ns \<inter> set (tags d) \<noteq> {} \<or>
             list_ex (\<lambda>a. set ?ns \<inter> set (tags_text a) \<noteq> {}) (articles d)"
    if cons: "index_consistent d" and eq: "phrase_match an = (\<lambda>p v. p = v)" for d
    using m [OF cons] by (simp add: names_match_equality [OF eq])
  show ?thesis
    apply (rule exI [of _ ?fa])
    apply (rule exI [of _ ?s])
    using f q m e by blast
qed

theorem tags_only_matches_witness:
  "getlist ex_known_tag ''classifications[]'' = [] \<and> \<not> truthy (get_param ex_known_tag ''q'') \<and>
   ints_of ex_other_int (getlist ex_known_tag ''tags[]'') = Inr [1] \<and>
   names_of [(1, ''Adaptation'')] [1] = [''Adaptation''] \<and>
   index_consistent ex_law_doc \<and> phrase_match ex_analysis = (\<lambda>p v. p = v) \<and>
   (\<exists>fa s. facet_stage ex_other_int [] [(1, ''Adaptation'')] ex_known_tag = Inr fa \<and>
           compose_query fa (get_param ex_known_tag ''q'') new_search = Inr s \<and>
           search_matches ex_analysis ex_law_doc s)"
proof -
  have a: "getlist ex_known_tag ''classifications[]'' = []"
    by (simp add: getlist_def ex_known_tag_def)
  have b: "\<not> truthy (get_param ex_known_tag ''q'')"
    by (simp add: truthy_def get_param_def ex_known_tag_def)
  have c: "ints_of ex_other_int (getlist ex_known_tag ''tags[]'') = Inr [1]"
    by (simp add: getlist_def ex_known_tag_def int_of_str_def py_int_defs bind_err_def)
  have d: "names_of [(1, ''Adaptation'')] [1] = [''Adaptation'']"
    by (simp add: names_of_def)
  have e: "names_of [(1, ''Adaptation'')] [1] \<noteq> []" using d by simp
  have i: "index_consistent ex_law_doc"
    by (simp add: index_consistent_def ex_law_doc_def)
  have p: "phrase_match ex_analysis = (\<lambda>p v. p = v)"
    by (simp add: ex_analysis_def)
  have m: "list_ex (\<lambda>a. set [''Adaptation''] \<inter> set (tags_text a) \<noteq> {}) (articles ex_law_doc)"
    by (simp add: ex_law_doc_def)
  show ?thesis
    using tags_only_matches [OF a b c e, where ct = "[]" and an = ex_analysis] a b c d i p m by auto
qed

text \<open>
  Identifiers that name nothing.  When the requested tag identifiers are integers and
  none of them names a tag, the name list is empty and \<^verbatim>\<open>reduce(operator.or_, [])\<close>
  raises \<^verbatim>\<open>TypeError\<close>: \<^verbatim>\<open>get_queryset\<close> fails on the sorted and on the unsorted path, and
  no query is composed.
\<close>

lemma unknown_tags_raise:
  assumes "classification_stage (e_other_int e) (e_classifications e) G no_facets = Inr fa"
    and "ints_of (e_other_int e) (getlist G ''tags[]'') = Inr ids" and "ids \<noteq> []"
    and "names_of (e_tags e) ids = []"
  shows "facet_stage (e_other_int e) (e_classifications e) (e_tags e) G = Inl TypeError \<and>
         get_queryset e G = Inl TypeError"
proof -
  have "tag_stage (e_other_int e) (e_tags e) G fa = Inl TypeError"
    using tag_stage_result [OF assms(2), where table = "e_tags e" and fa = fa] assms(3,4) by simp
  then have f: "facet_stage (e_other_int e) (e_classifications e) (e_tags e) G = Inl TypeError"
    using assms(1) by (simp add: facet_stage_def bind_err_def)
  then show ?thesis by (simp add: get_queryset_def bind_err_def)
qed

text \<open>
  C7.  A request with \<^verbatim>\<open>tags[]\<close> alone should select the documents whose own tag list, or
  the tag list of one of their articles, holds a requested name; when the identifiers
  name no tag there is no such name, and no document should match.  The code does not
  get that far: for the request \<^verbatim>\<open>tags[]=999\<close>, with \<open>1\<close> the only identifier of a tag,
  there is no free text and no classification, the identifier is an integer, the list of
  requested names is empty, and the facet stage raises \<^verbatim>\<open>TypeError\<close> at
  \<^verbatim>\<open>reduce(operator.or_, ...)\<close> (line 264) instead of building a query; so does
  \<^verbatim>\<open>get_queryset\<close>.
\<close>

theorem unknown_tag_request_raises:
  "getlist ex_unknown_tag ''classifications[]'' = [] \<and>
   \<not> truthy (get_param ex_unknown_tag ''q'') \<and>
   ints_of (e_other_int ex_env) (getlist ex_unknown_tag ''tags[]'') = Inr [999] \<and>
   names_of (e_tags ex_env) [999] = [] \<and>
   facet_stage (e_other_int ex_env) (e_classifications ex_env) (e_tags ex_env) ex_unknown_tag =
     Inl TypeError \<and>
   get_queryset ex_env ex_unknown_tag = Inl TypeError"
proof -
  have n: "getlist ex_unknown_tag ''classifications[]'' = []"
    by (simp add: getlist_def ex_unknown_tag_def)
  have q: "\<not> truthy (get_param ex_unknown_tag ''q'')"
    by (simp add: truthy_def get_param_def ex_unknown_tag_def)
  have a: "classification_stage (e_other_int ex_env) (e_classifications ex_env) ex_unknown_tag
             no_facets = Inr no_facets"
    by (simp add: classification_stage_def getlist_def ex_unknown_tag_def bind_err_def no_facets_def)
  have b: "ints_of (e_other_int ex_env) (getlist ex_unknown_tag ''tags[]'') = Inr [999]"
    by (simp add: getlist_def ex_unknown_tag_def int_of_str_def py_int_defs bind_err_def)
  have c: "[999] \<noteq> ([] :: int list)" by simp
  have d: "names_of (e_tags ex_env) [999] = []"
    by (simp add: names_of_def ex_env_def)
  show ?thesis
    using unknown_tags_raise [OF a b c d] n q b d by simp
qed

subsection \<open>Hydration\<close>

lemma first_of_nonempty: "xs \<noteq> [] \<Longrightarrow> first_of xs = Inr (hd xs)"
  by (cases xs) (simp_all add: first_of_def)

lemma matched_names_ok:
  assumes "conn \<noteq> []" and "h key \<noteq> Some []"
  shows "matched_names conn h key = Inr (own_names conn h key)"
proof (cases "h key")
  case None
  then show ?thesis by (simp add: matched_names_def own_names_def)
next
  case (Some fr)
  then have "fr \<noteq> []" using assms(2) by auto
  then show ?thesis using Some assms(1)
    by (simp add: matched_names_def own_names_def first_of_nonempty py_split_def bind_err_def)
qed

lemma split_first_ok:
  assumes "conn \<noteq> []" and "h key \<noteq> Some []"
  shows "\<exists>r. split_first conn h key = Inr r"
proof (cases "h key")
  case None
  then show ?thesis by (simp add: split_first_def)
next
  case (Some fr)
  then have "fr \<noteq> []" using assms(2) by auto
  then show ?thesis using Some assms(1)
    by (simp add: split_first_def first_of_nonempty py_split_def bind_err_def)
qed

lemma title_ok:
  assumes "h ''title'' \<noteq> Some []"
  shows "\<exists>r. (case h ''title'' of None \<Rightarrow> Inr None
              | Some fr \<Rightarrow> bind_err (first_of fr) (\<lambda>t. Inr (Some t))) = (Inr r :: error + string option)"
proof (cases "h ''title''")
  case None
  then show ?thesis by simp
next
  case (Some fr)
  then have "fr \<noteq> []" using assms by auto
  then show ?thesis using Some by (simp add: first_of_nonempty bind_err_def)
qed

lemma document_highlights_ok:
  assumes "conn \<noteq> []"
    and "list_all (\<lambda>k. h k \<noteq> Some [])
           [''title'', ''classifications'', ''article_classifications'', ''tags'', ''article_tags'']"
  shows "\<exists>l'. document_highlights conn h acc l =
               Inr ((fst acc @ own_names conn h ''article_tags'',
                     snd acc @ own_names conn h ''article_classifications''), l') \<and>
              law_articles l' = law_articles l \<and> pk l' = pk l \<and>
              highlighted_articles l' = highlighted_articles l"
proof -
  have k: "h ''title'' \<noteq> Some []" "h ''classifications'' \<noteq> Some []"
    "h ''article_classifications'' \<noteq> Some []" "h ''tags'' \<noteq> Some []"
    "h ''article_tags'' \<noteq> Some []"
    using assms(2) by simp_all
  obtain ti where ti: "(case h ''title'' of None \<Rightarrow> Inr None
              | Some fr \<Rightarrow> bind_err (first_of fr) (\<lambda>t. Inr (Some t))) = (Inr ti :: error + string option)"
    using title_ok [of h] k(1) by blast
  obtain cl where cl: "split_first conn h ''classifications'' = Inr cl"
    using split_first_ok [where h = h and key = "''classifications''"] assms(1) k(2) by blast
  obtain tg where tg: "split_first conn h ''tags'' = Inr tg"
    using split_first_ok [where h = h and key = "''tags''"] assms(1) k(4) by blast
  have mc: "matched_names conn h ''article_classifications'' =
              Inr (own_names conn h ''article_classifications'')"
    using matched_names_ok [where h = h and key = "''article_classifications''"] assms(1) k(3) by blast
  have mt: "matched_names conn h ''article_tags'' = Inr (own_names conn h ''article_tags'')"
    using matched_names_ok [where h = h and key = "''article_tags''"] assms(1) k(5) by blast
  show ?thesis
    unfolding document_highlights_def Let_def ti cl tg mc mt
    by (simp add: bind_err_def)
qed

lemma split_truthy_ok: "conn \<noteq> [] \<Longrightarrow> \<exists>r. split_truthy conn h key = Inr r"
  by (cases "h key")
    (auto simp add: split_truthy_def first_of_nonempty py_split_def bind_err_def)

lemma inner_article_ok: "conn \<noteq> [] \<Longrightarrow> \<exists>ds. inner_article conn a = Inr ds"
proof -
  assume c: "conn \<noteq> []"
  show ?thesis
  proof (cases "ah_highlight a")
    case None
    then show ?thesis by (simp add: inner_article_def)
  next
    case (Some h)
    obtain cl where cl: "split_truthy conn h ''articles.classifications_text'' = Inr cl"
      using split_truthy_ok [OF c] by blast
    obtain tg where tg: "split_truthy conn h ''articles.tags_text'' = Inr tg"
      using split_truthy_ok [OF c] by blast
    show ?thesis using Some by (simp add: inner_article_def cl tg bind_err_def)
  qed
qed

lemma inner_articles_ok: "conn \<noteq> [] \<Longrightarrow> \<exists>ds. inner_articles conn arts = Inr ds"
proof (induction arts)
  case Nil
  then show ?case by simp
next
  case (Cons a arts)
  obtain d where d: "inner_article conn a = Inr d"
    using inner_article_ok [OF Cons.prems] by blast
  obtain ds where ds: "inner_articles conn arts = Inr ds"
    using Cons by blast
  show ?case by (simp add: d ds bind_err_def)
qed

lemma nested_highlights_ok:
  assumes "conn \<noteq> []"
  shows "\<exists>l'. nested_highlights conn acc h l = Inr l' \<and> pk l' = pk l \<and>
           (inner_hits h = Some [] \<longrightarrow>
              highlighted_articles l' =
                Some (if fst acc \<noteq> [] \<or> snd acc \<noteq> []
                      then fallback_articles (fst acc) (snd acc) l else []))"
proof (cases "inner_hits h")
  case None
  then show ?thesis by (simp add: nested_highlights_def)
next
  case (Some arts)
  show ?thesis
  proof (cases "arts = []")
    case True
    then show ?thesis using Some by (auto simp add: nested_highlights_def)
  next
    case False
    obtain ds where "inner_articles conn arts = Inr ds"
      using inner_articles_ok [OF assms] by blast
    then show ?thesis using Some False by (simp add: nested_highlights_def bind_err_def)
  qed
qed

lemma fallback_articles_same:
  "law_articles l' = law_articles l \<Longrightarrow> fallback_articles mt mc l' = fallback_articles mt mc l"
  by (simp add: fallback_articles_def)

lemma hydrate_hit_ok:
  assumes "hit_ok conn h"
  shows "\<exists>l'. hydrate_hit conn acc h l =
               Inr ((fst acc @ fst (hit_names conn h), snd acc @ snd (hit_names conn h)), l') \<and>
              pk l' = pk l \<and>
              (inner_hits h = Some [] \<longrightarrow>
                 highlighted_articles l' =
                   Some (if fst acc @ fst (hit_names conn h) \<noteq> [] \<or>
                            snd acc @ snd (hit_names conn h) \<noteq> []
                         then fallback_articles (fst acc @ fst (hit_names conn h))
                                (snd acc @ snd (hit_names conn h)) l
                         else []))"
proof -
  have c: "conn \<noteq> []" using assms by (simp add: hit_ok_def)
  let ?acc = "(fst acc @ fst (hit_names conn h), snd acc @ snd (hit_names conn h))"
  obtain l1 where d: "(case hit_highlight h of
                 None \<Rightarrow> Inr (acc, l)
               | Some hl \<Rightarrow> document_highlights conn hl acc l) = Inr (?acc, l1)"
    and a1: "law_articles l1 = law_articles l" and p1: "pk l1 = pk l"
  proof (cases "hit_highlight h")
    case None
    then show ?thesis using that [of l] by (simp add: hit_names_def)
  next
    case (Some hl)
    then have "list_all (\<lambda>k. hl k \<noteq> Some [])
           [''title'', ''classifications'', ''article_classifications'', ''tags'', ''article_tags'']"
      using assms by (simp add: hit_ok_def)
    from document_highlights_ok [OF c this, of acc l]
    show ?thesis using that Some by (auto simp add: hit_names_def)
  qed
  obtain l2 where n: "nested_highlights conn ?acc h l1 = Inr l2" and p2: "pk l2 = pk l1"
    and f: "inner_hits h = Some [] \<longrightarrow>
              highlighted_articles l2 =
                Some (if fst ?acc \<noteq> [] \<or> snd ?acc \<noteq> []
                      then fallback_articles (fst ?acc) (snd ?acc) l1 else [])"
    using nested_highlights_ok [OF c, of ?acc h l1] by blast
  have "hydrate_hit conn acc h l = Inr (?acc, l2)"
    unfolding hydrate_hit_def d by (simp add: bind_err_def n)
  then show ?thesis using f p1 p2 fallback_articles_same [OF a1] by auto
qed

lemma hydrate_loop_ok:
  assumes "list_all (hit_ok conn) (map fst ps)"
  shows "\<exists>ls. hydrate_loop conn acc ps =
               Inr ((fst acc @ concat (map (\<lambda>p. fst (hit_names conn (fst p))) ps),
                     snd acc @ concat (map (\<lambda>p. snd (hit_names conn (fst p))) ps)), ls) \<and>
              length ls = length ps"
  using assms
proof (induction ps arbitrary: acc)
  case Nil
  then show ?case by simp
next
  case (Cons p ps)
  let ?acc1 = "(fst acc @ fst (hit_names conn (fst p)), snd acc @ snd (hit_names conn (fst p)))"
  have "hit_ok conn (fst p)" using Cons.prems by simp
  then obtain l' where h: "hydrate_hit conn acc (fst p) (snd p) = Inr (?acc1, l')"
    using hydrate_hit_ok [of conn "fst p" acc "snd p"] by blast
  have "list_all (hit_ok conn) (map fst ps)" using Cons.prems by simp
  then obtain ls where r: "hydrate_loop conn ?acc1 ps =
               Inr ((fst ?acc1 @ concat (map (\<lambda>p. fst (hit_names conn (fst p))) ps),
                     snd ?acc1 @ concat (map (\<lambda>p. snd (hit_names conn (fst p))) ps)), ls)"
    and n: "length ls = length ps"
    using Cons.IH [of ?acc1] by blast
  show ?case
    by (rule exI [of _ "l' # ls"]) (simp add: h r n bind_err_def)
qed

lemma hydrate_loop_append:
  "hydrate_loop conn acc (ps @ qs) =
     bind_err (hydrate_loop conn acc ps) (\<lambda>r.
     bind_err (hydrate_loop conn (fst r) qs) (\<lambda>r'. Inr (fst r', snd r @ snd r')))"
proof (induction ps arbitrary: acc)
  case Nil
  then show ?case by (cases "hydrate_loop conn acc qs") (simp_all add: bind_err_def)
next
  case (Cons p ps)
  show ?case
  proof (cases "hydrate_hit conn acc (fst p) (snd p)")
    case (Inl e)
    then show ?thesis by (simp add: bind_err_def)
  next
    case (Inr r)
    then show ?thesis using Cons [of "fst r"]
      by (simp add: bind_err_def split: sum.splits)
  qed
qed

lemma nullable_set: "set (nullable xs) = (if xs = [] then {None} else Some ` set xs)"
  by (simp add: nullable_def)

lemma set_articles_filter:
  "set (articles_filter mt mc arts) = {a \<in> set arts. article_intersects mt mc a}"
proof -
  have "(\<exists>t \<in> set (nullable ts). \<exists>c \<in> set (nullable cs). name_in t mt \<or> name_in c mc) \<longleftrightarrow>
        set ts \<inter> set mt \<noteq> {} \<or> set cs \<inter> set mc \<noteq> {}" for ts cs :: "string list"
  proof (cases "ts = []"; cases "cs = []")
    assume "ts = []" "cs = []"
    then show ?thesis by (simp add: nullable_set name_in_def)
  next
    assume "ts = []" "cs \<noteq> []"
    then show ?thesis by (auto simp add: nullable_set name_in_def)
  next
    assume "ts \<noteq> []" "cs = []"
    then show ?thesis by (auto simp add: nullable_set name_in_def)
  next
    assume ne: "ts \<noteq> []" "cs \<noteq> []"
    then obtain t0 c0 where "t0 \<in> set ts" "c0 \<in> set cs"
      by (meson hd_in_set)
    then show ?thesis using ne by (auto simp add: nullable_set name_in_def)
  qed
  note key = this
  have "set (articles_filter mt mc arts) =
          {a \<in> set arts. \<exists>t \<in> set (nullable (article_tag_names a)).
                            \<exists>c \<in> set (nullable (article_classification_names a)).
                              name_in t mt \<or> name_in c mc}"
    by (auto simp add: articles_filter_def)
  then show ?thesis unfolding key article_intersects_def by simp
qed

lemma fallback_articles_set:
  "set (fallback_articles mt mc l) =
     fallback_dict mt mc ` {a \<in> set (law_articles l). article_intersects mt mc a}"
  by (simp add: fallback_articles_def set_articles_filter)

lemma fallback_articles_nonempty:
  "fallback_articles mt mc l \<noteq> [] \<longleftrightarrow> (\<exists>a \<in> set (law_articles l). article_intersects mt mc a)"
proof -
  have "fallback_articles mt mc l \<noteq> [] \<longleftrightarrow> set (fallback_articles mt mc l) \<noteq> {}" by simp
  then show ?thesis unfolding fallback_articles_set by auto
qed

lemma fallback_dict_emphasis:
  "(n \<in> set (article_tag_names a) \<and> n \<in> set mt \<longrightarrow>
      emphasise n \<in> set (the (d_tags (fallback_dict mt mc a)))) \<and>
   (n \<in> set (article_classification_names a) \<and> n \<in> set mc \<longrightarrow>
      emphasise n \<in> set (the (d_classifications (fallback_dict mt mc a))))"
  by (auto simp add: fallback_dict_def)

text \<open>
  C3 (amended).  Take a hit whose highlights can be read (the connector is not empty and
  no fragment list is empty), whose inner-hit list is present and empty, and whose
  \<^verbatim>\<open>article_tags\<close> and \<^verbatim>\<open>article_classifications\<close> highlights show the matched tag names
  \<open>mt\<close> and classification names \<open>mc\<close>, not both empty.  When the hit is processed
  with no names carried over from earlier hits, as the first hit of a page is, the
  hydrator attaches the list built from the articles of the document's relational record
  that have a tag among \<open>mt\<close> or a classification among \<open>mc\<close>, with each such name
  wrapped in \<^verbatim>\<open><em>\<close> and \<^verbatim>\<open></em>\<close>.  The list is not empty exactly when the record
  has such an article.
\<close>

theorem fallback_from_store:
  assumes "hit_ok conn h" and "inner_hits h = Some []"
    and "hit_names conn h = (mt, mc)" and "mt \<noteq> [] \<or> mc \<noteq> []"
  shows "\<exists>l'. hydrate_hit conn ([], []) h l = Inr ((mt, mc), l') \<and>
              highlighted_articles l' = Some (fallback_articles mt mc l) \<and>
              set (fallback_articles mt mc l) =
                fallback_dict mt mc ` {a \<in> set (law_articles l). article_intersects mt mc a} \<and>
              (fallback_articles mt mc l \<noteq> [] \<longleftrightarrow>
                 (\<exists>a \<in> set (law_articles l). article_intersects mt mc a)) \<and>
              (\<forall>a n. (n \<in> set (article_tag_names a) \<and> n \<in> set mt \<longrightarrow>
                        emphasise n \<in> set (the (d_tags (fallback_dict mt mc a)))) \<and>
                     (n \<in> set (article_classification_names a) \<and> n \<in> set mc \<longrightarrow>
                        emphasise n \<in> set (the (d_classifications (fallback_dict mt mc a)))))"
proof -
  obtain l' where h: "hydrate_hit conn ([], []) h l = Inr ((mt, mc), l')"
    and f: "highlighted_articles l' =
              Some (if mt \<noteq> [] \<or> mc \<noteq> [] then fallback_articles mt mc l else [])"
    using hydrate_hit_ok [OF assms(1), of "([], [])" l] assms(2,3) by auto
  have g: "highlighted_articles l' = Some (fallback_articles mt mc l)"
    using f assms(4) by simp
  show ?thesis
    using h g fallback_articles_set [of mt mc l] fallback_articles_nonempty [of mt mc l]
      fallback_dict_emphasis [of _ _ mt mc]
    by auto
qed

theorem fallback_from_store_witness:
  "hit_ok '', '' (ex_tag_hit 1) \<and> inner_hits (ex_tag_hit 1) = Some [] \<and>
   hit_names '', '' (ex_tag_hit 1) = ([''Adaptation''], []) \<and>
   (\<exists>l'. hydrate_hit '', '' ([], []) (ex_tag_hit 1) (stored_law 1 [ex_article]) =
            Inr (([''Adaptation''], []), l') \<and>
         highlighted_articles l' =
           Some [\<lparr>d_pk = 7, d_code = ''Art. 1'', d_text = None, d_classifications = Some [],
                  d_tags = Some [''<em>Adaptation</em>'']\<rparr>])"
proof -
  have ok: "hit_ok '', '' (ex_tag_hit 1)"
    by (simp add: hit_ok_def ex_tag_hit_def)
  have i: "inner_hits (ex_tag_hit 1) = Some []"
    by (simp add: ex_tag_hit_def)
  have n1: "hit_names '', '' (ex_tag_hit 1) = ([''Adaptation''], [])"
    by (simp add: hit_names_def own_names_def ex_tag_hit_def slice_4_5_def)
  have fb: "fallback_articles [''Adaptation''] [] (stored_law 1 [ex_article]) =
      [\<lparr>d_pk = 7, d_code = ''Art. 1'', d_text = None, d_classifications = Some [],
        d_tags = Some [''<em>Adaptation</em>'']\<rparr>]"
    by (simp add: fallback_articles_def articles_filter_def fallback_dict_def nullable_def
        name_in_def stored_law_def ex_article_def emphasise_def)
  show ?thesis
    using fallback_from_store [OF ok i n1, where l = "stored_law 1 [ex_article]"] ok i n1 fb
    by auto
qed

lemmas hydrate_defs = hydrate_def to_queryset_def map_filter_simps hydrate_hit_def
  document_highlights_def nested_highlights_def matched_names_def split_first_def first_of_def
  py_split_def bind_err_def keep_def stored_law_def title_hit_def ex_tag_hit_def ex_plain_hit_def
  ex_article_def fallback_articles_def articles_filter_def fallback_dict_def nullable_def
  name_in_def slice_4_5_def emphasise_def Let_def

text \<open>
  The claim as stated fails: the highlights of the hit show that the article-level tag
  \<open>Adaptation\<close> was matched and its inner-hit list is empty, but the relational record
  has no article with that tag (the index is stale), and the attached list is empty.
\<close>

theorem fallback_empty_on_stale_store:
  "hit_names '', '' (ex_tag_hit 1) = ([''Adaptation''], []) \<and>
   inner_hits (ex_tag_hit 1) = Some [] \<and>
   hydrate '', '' [stored_law 1 []] [ex_tag_hit 1] =
     Inr [(stored_law 1 [])\<lparr>highlighted_articles := Some []\<rparr>]"
  by (simp add: hydrate_defs hit_names_def own_names_def)

text \<open>
  C10.  The accumulators are empty before the loop and each hit appends its names to
  them: after the loop they hold the names of all hits of the page, in order.  A hit
  with an empty inner-hit list gets the fallback list computed from the names of all
  hits before it and its own, not from its own names alone.
\<close>

theorem accumulators_span_the_page:
  assumes "list_all (hit_ok conn) (map fst (ps1 @ (h, l) # ps2))" and "inner_hits h = Some []"
  shows "\<exists>ls. hydrate_loop conn ([], []) (ps1 @ (h, l) # ps2) =
               Inr ((concat (map (\<lambda>p. fst (hit_names conn (fst p))) (ps1 @ (h, l) # ps2)),
                     concat (map (\<lambda>p. snd (hit_names conn (fst p))) (ps1 @ (h, l) # ps2))), ls) \<and>
              length ls = length (ps1 @ (h, l) # ps2) \<and>
              highlighted_articles (ls ! length ps1) =
                (let mt = concat (map (\<lambda>p. fst (hit_names conn (fst p))) (ps1 @ [(h, l)]));
                     mc = concat (map (\<lambda>p. snd (hit_names conn (fst p))) (ps1 @ [(h, l)]))
                 in Some (if mt \<noteq> [] \<or> mc \<noteq> [] then fallback_articles mt mc l else []))"
proof -
  let ?t = "\<lambda>p. fst (hit_names conn (fst p))"
  let ?c = "\<lambda>p. snd (hit_names conn (fst p))"
  let ?acc1 = "(concat (map ?t ps1), concat (map ?c ps1))"
  let ?acc2 = "(concat (map ?t ps1) @ fst (hit_names conn h),
               concat (map ?c ps1) @ snd (hit_names conn h))"
  have ok1: "list_all (hit_ok conn) (map fst ps1)" and okh: "hit_ok conn h"
    and ok2: "list_all (hit_ok conn) (map fst ps2)"
    using assms(1) by simp_all
  obtain ls1 where r1: "hydrate_loop conn ([], []) ps1 = Inr (?acc1, ls1)"
    and n1: "length ls1 = length ps1"
    using hydrate_loop_ok [OF ok1, of "([], [])"] by auto
  obtain l' where rh: "hydrate_hit conn ?acc1 h l = Inr (?acc2, l')"
    and f: "highlighted_articles l' =
              Some (if fst ?acc2 \<noteq> [] \<or> snd ?acc2 \<noteq> []
                    then fallback_articles (fst ?acc2) (snd ?acc2) l else [])"
    using hydrate_hit_ok [OF okh, of ?acc1 l] assms(2) by auto
  obtain ls2 where r2: "hydrate_loop conn ?acc2 ps2 =
        Inr ((concat (map ?t ps1) @ fst (hit_names conn h) @ concat (map ?t ps2),
              concat (map ?c ps1) @ snd (hit_names conn h) @ concat (map ?c ps2)), ls2)"
    and n2: "length ls2 = length ps2"
    using hydrate_loop_ok [OF ok2, of ?acc2] by auto
  have s2: "hydrate_loop conn ?acc1 ((h, l) # ps2) =
        Inr ((concat (map ?t ps1) @ fst (hit_names conn h) @ concat (map ?t ps2),
              concat (map ?c ps1) @ snd (hit_names conn h) @ concat (map ?c ps2)), l' # ls2)"
    using rh r2 by (simp add: bind_err_def)
  have "hydrate_loop conn ([], []) (ps1 @ (h, l) # ps2) =
          Inr ((concat (map ?t ps1) @ fst (hit_names conn h) @ concat (map ?t ps2),
                concat (map ?c ps1) @ snd (hit_names conn h) @ concat (map ?c ps2)),
               ls1 @ l' # ls2)"
    unfolding hydrate_loop_append r1 using s2 by (simp add: bind_err_def)
  moreover have "(ls1 @ l' # ls2) ! length ps1 = l'"
    using n1 by (metis nth_append_length)
  ultimately show ?thesis
    using n1 n2 f by (intro exI [of _ "ls1 @ l' # ls2"]) (simp add: Let_def)
qed

theorem accumulators_span_the_page_witness:
  "list_all (hit_ok '', '')
     (map fst ([(ex_tag_hit 1, stored_law 1 [])] @ (ex_plain_hit 2, stored_law 2 [ex_article]) # [])) \<and>
   inner_hits (ex_plain_hit 2) = Some [] \<and>
   hit_names '', '' (ex_plain_hit 2) = ([], []) \<and>
   (\<exists>ls. hydrate_loop '', '' ([], [])
            ([(ex_tag_hit 1, stored_law 1 [])] @ (ex_plain_hit 2, stored_law 2 [ex_article]) # []) =
            Inr (([''Adaptation''], []), ls) \<and>
         highlighted_articles (ls ! 1) =
           Some [\<lparr>d_pk = 7, d_code = ''Art. 1'', d_text = None, d_classifications = Some [],
                  d_tags = Some [''<em>Adaptation</em>'']\<rparr>])"
proof -
  have ok: "list_all (hit_ok '', '')
     (map fst ([(ex_tag_hit 1, stored_law 1 [])] @ (ex_plain_hit 2, stored_law 2 [ex_article]) # []))"
    by (simp add: hit_ok_def ex_tag_hit_def ex_plain_hit_def)
  have i: "inner_hits (ex_plain_hit 2) = Some []"
    by (simp add: ex_plain_hit_def)
  have n1: "hit_names '', '' (ex_tag_hit 1) = ([''Adaptation''], [])"
    by (simp add: hit_names_def own_names_def ex_tag_hit_def slice_4_5_def)
  have n2: "hit_names '', '' (ex_plain_hit 2) = ([], [])"
    by (simp add: hit_names_def ex_plain_hit_def)
  have fb: "fallback_articles [''Adaptation''] [] (stored_law 2 [ex_article]) =
      [\<lparr>d_pk = 7, d_code = ''Art. 1'', d_text = None, d_classifications = Some [],
        d_tags = Some [''<em>Adaptation</em>'']\<rparr>]"
    by (simp add: fallback_articles_def articles_filter_def fallback_dict_def nullable_def
        name_in_def stored_law_def ex_article_def emphasise_def)
  show ?thesis
    using accumulators_span_the_page [OF ok i] ok i n1 n2 fb
    by (auto simp add: Let_def)
qed

text \<open>
  C9 (where the code departs from it).  The index returns hits 1, 2 and 3, each with
  its own title highlight, and the record of hit 2 is gone from the store.  The record
  of hit 2 is not in the page, but \<^verbatim>\<open>zip\<close> pairs by position: record 3 gets the
  highlight of hit 2, and hit 3 is lost.
\<close>

theorem deleted_record_shifts_highlights:
  "hydrate '', '' [stored_law 1 [], stored_law 3 []]
     [title_hit 1 ''<em>A</em>'', title_hit 2 ''<em>B</em>'', title_hit 3 ''<em>C</em>''] =
   Inr [(stored_law 1 [])\<lparr>highlighted_title := Some ''<em>A</em>''\<rparr>,
        (stored_law 3 [])\<lparr>highlighted_title := Some ''<em>B</em>''\<rparr>]"
  by (simp add: hydrate_defs)

subsection \<open>The sorted path\<close>

lemma get_sort_cases:
  "get_sort G =
     (if truthy (get_param G ''promulgation_sort'') then
        Some (if get_param G ''promulgation_sort'' = Some ''1'' then ''year'' else ''-year'')
      else if truthy (get_param G ''country_sort'') then
        Some (if get_param G ''country_sort'' = Some ''1'' then ''country_name''
              else ''-country_name'')
      else None)"
  by (simp add: get_sort_def Let_def)

lemma get_sort_keys:
  assumes "get_sort G = Some k"
  shows "k = ''year'' \<or> k = ''-year'' \<or> k = ''country_name'' \<or> k = ''-country_name''"
  using assms unfolding get_sort_cases by (auto split: if_splits)












lemma es_count_all: "es_count an index new_search = length index"
  by (simp add: es_count_def search_matches_def new_search_def)




text \<open>
  Sorting drops the filters.  For a request with a sort parameter the search handed to
  the paginator is the fresh one: it has no query, so the free text, the facets, the
  countries, the law types and the years of the request do not restrict it, and its
  count is the number of all indexed documents.
\<close>

theorem sorted_request_is_unfiltered:
  assumes "get_sort G = Some k"
    and "facet_stage (e_other_int e) (e_classifications e) (e_tags e) G = Inr fa"
  shows "get_queryset e G =
           paginate (e_other_int e) (LAWS_PER_PAGE e) (length (e_index e))
             (getitem (e_analysis e) (e_index e) (e_store e) (TAXONOMY_CONNECTOR e) (e_respond e)
                new_search (Some k))
             (page_param G) \<and>
         s_query new_search = None"
proof -
  have "k \<noteq> []" using get_sort_keys [OF assms(1)] by auto
  then have "get_queryset e G =
           paginate (e_other_int e) (LAWS_PER_PAGE e) (length (e_index e))
             (getitem (e_analysis e) (e_index e) (e_store e) (TAXONOMY_CONNECTOR e) (e_respond e)
                new_search (Some k))
             (page_param G)"
    using assms by (simp add: get_queryset_def bind_err_def truthy_def es_count_all)
  moreover have "s_query new_search = None" by (simp add: new_search_def)
  ultimately show ?thesis by (rule conjI)
qed

theorem sorted_request_is_unfiltered_witness:
  "get_sort ex_sorted = Some ''year'' \<and>
   facet_stage (e_other_int ex_env_laws) (e_classifications ex_env_laws) (e_tags ex_env_laws) ex_sorted = Inr no_facets \<and>
   get_queryset ex_env_laws ex_sorted =
     paginate (e_other_int ex_env_laws) (LAWS_PER_PAGE ex_env_laws) (length (e_index ex_env_laws))
       (getitem (e_analysis ex_env_laws) (e_index ex_env_laws) (e_store ex_env_laws)
          (TAXONOMY_CONNECTOR ex_env_laws) (e_respond ex_env_laws) new_search (Some ''year''))
       (page_param ex_sorted)"
proof -
  have s: "get_sort ex_sorted = Some ''year''"
    by (simp add: get_sort_def get_param_def ex_sorted_def truthy_def)
  have f: "facet_stage (e_other_int ex_env_laws) (e_classifications ex_env_laws) (e_tags ex_env_laws) ex_sorted = Inr no_facets"
    by (simp add: facet_stage_def classification_stage_def tag_stage_def getlist_def
        ex_sorted_def bind_err_def no_facets_def)
  show ?thesis
    using sorted_request_is_unfiltered [OF s f] s f by simp
qed

end
